theory Spec2Isabelle
  imports Complex_Main "HOL-Library.Sublist"
begin

section \<open>Python values that the tool reads from JSON\<close>

text \<open>
  \<open>json.load\<close>, \<open>response.json()\<close> and the browser's storage snapshot all hand the
  program plain Python values: \<open>None\<close>, \<open>bool\<close>, \<open>int\<close>, \<open>float\<close>, \<open>str\<close>, \<open>list\<close>
  and \<open>dict\<close> with string keys. A \<open>dict\<close> is kept as the list of its items in insertion
  order (the order \<open>.items()\<close> iterates in); a key is looked up with \<open>map_of\<close>.
  A finite float is kept by its exact value (so \<open>-0.0\<close> and \<open>0.0\<close> coincide, which none
  of the operations below can tell apart); the three non-finite literals that
  \<open>json.load\<close> accepts are separate.
\<close>

datatype py_float = Finite rat | PosInf | NegInf | NaN

datatype json =
    JNull
  | JBool bool
  | JInt int
  | JFloat py_float
  | JStr string
  | JList "json list"
  | JDict "(string \<times> json) list"

text \<open>
  The exceptions that occur. \<open>ValueError m\<close> is a \<open>ValueError\<close> raised by the program
  itself with message \<open>m\<close>; \<open>Failed_to_load e\<close> is the
  \<open>ValueError(f"Failed to load backup: {e}")\<close> of \<open>load_backup\<close>, which wraps the
  exception \<open>e\<close> it caught.
\<close>

datatype py_error =
    AttributeError
  | TypeError
  | KeyError
  | ValueError string
  | Failed_to_load py_error
  | OSError
  | JSONDecodeError
  | HTTPError nat
  | RequestException
  | BrowserError

definition bind_e :: "py_error + 'a \<Rightarrow> ('a \<Rightarrow> py_error + 'b) \<Rightarrow> py_error + 'b" where
  "bind_e m f = (case m of Inl e \<Rightarrow> Inl e | Inr v \<Rightarrow> f v)"

text \<open>\<open>x.get(k, default)\<close>: only a \<open>dict\<close> has the method.\<close>

fun py_get :: "json \<Rightarrow> string \<Rightarrow> json \<Rightarrow> py_error + json" where
  "py_get (JDict d) k dflt = Inr (case map_of d k of None \<Rightarrow> dflt | Some v \<Rightarrow> v)"
| "py_get _ k dflt = Inl AttributeError"

text \<open>
  \<open>k in x\<close> for a string \<open>k\<close>: key membership in a \<open>dict\<close>, element membership in a
  \<open>list\<close>, substring test in a \<open>str\<close>, and a \<open>TypeError\<close> for everything else.
\<close>

fun py_in :: "string \<Rightarrow> json \<Rightarrow> py_error + bool" where
  "py_in k (JDict d) = Inr (map_of d k \<noteq> None)"
| "py_in k (JList xs) = Inr (List.member xs (JStr k))"
| "py_in k (JStr s) = Inr (sublist k s)"
| "py_in k _ = Inl TypeError"

text \<open>\<open>x[k]\<close> for a string \<open>k\<close>.\<close>

fun py_getitem :: "json \<Rightarrow> string \<Rightarrow> py_error + json" where
  "py_getitem (JDict d) k = (case map_of d k of None \<Rightarrow> Inl KeyError | Some v \<Rightarrow> Inr v)"
| "py_getitem _ k = Inl TypeError"

text \<open>Truth value, as \<open>not x\<close> and \<open>if x\<close> take it.\<close>

fun py_truthy :: "json \<Rightarrow> bool" where
  "py_truthy JNull = False"
| "py_truthy (JBool b) = b"
| "py_truthy (JInt n) = (n \<noteq> 0)"
| "py_truthy (JFloat f) = (f \<noteq> Finite 0)"
| "py_truthy (JStr s) = (s \<noteq> [])"
| "py_truthy (JList xs) = (xs \<noteq> [])"
| "py_truthy (JDict d) = (d \<noteq> [])"

text \<open>\<open>x > 0\<close>: defined on numbers (a \<open>bool\<close> is an \<open>int\<close>), a \<open>TypeError\<close> otherwise.\<close>

fun py_gt_zero :: "json \<Rightarrow> py_error + bool" where
  "py_gt_zero (JInt n) = Inr (0 < n)"
| "py_gt_zero (JBool b) = Inr b"
| "py_gt_zero (JFloat (Finite r)) = Inr (0 < r)"
| "py_gt_zero (JFloat PosInf) = Inr True"
| "py_gt_zero (JFloat NegInf) = Inr False"
| "py_gt_zero (JFloat NaN) = Inr False"
| "py_gt_zero _ = Inl TypeError"

text \<open>\<open>x == "..."\<close> and \<open>x == True\<close> (where \<open>1 == True\<close> and \<open>1.0 == True\<close> hold).\<close>

fun py_eq_str :: "json \<Rightarrow> string \<Rightarrow> bool" where
  "py_eq_str (JStr s) t = (s = t)"
| "py_eq_str _ t = False"

fun py_eq_True :: "json \<Rightarrow> bool" where
  "py_eq_True (JBool b) = b"
| "py_eq_True (JInt n) = (n = 1)"
| "py_eq_True (JFloat f) = (f = Finite 1)"
| "py_eq_True _ = False"

text \<open>
  \<open>for x in v\<close>: a \<open>list\<close> yields its elements, a \<open>dict\<close> its keys, a \<open>str\<close> its
  characters; anything else is not iterable.
\<close>

fun py_iter :: "json \<Rightarrow> py_error + json list" where
  "py_iter (JList xs) = Inr xs"
| "py_iter (JDict d) = Inr (map (\<lambda>kv. JStr (fst kv)) d)"
| "py_iter (JStr s) = Inr (map (\<lambda>c. JStr [c]) s)"
| "py_iter _ = Inl TypeError"

text \<open>\<open>len(v)\<close> and the slice \<open>v[i:j]\<close> with \<open>0 \<le> i \<le> j\<close>.\<close>

fun py_len :: "json \<Rightarrow> py_error + nat" where
  "py_len (JList xs) = Inr (length xs)"
| "py_len (JDict d) = Inr (length d)"
| "py_len (JStr s) = Inr (length s)"
| "py_len _ = Inl TypeError"

fun py_slice :: "json \<Rightarrow> nat \<Rightarrow> nat \<Rightarrow> py_error + json" where
  "py_slice (JList xs) i j = Inr (JList (take (j - i) (drop i xs)))"
| "py_slice (JStr s) i j = Inr (JStr (take (j - i) (drop i s)))"
| "py_slice _ i j = Inl TypeError"

text \<open>\<open>range(start, stop, step)\<close> for non-negative arguments, as the list it runs through.\<close>

function py_range :: "nat \<Rightarrow> nat \<Rightarrow> nat \<Rightarrow> nat list" where
  "py_range i stop step =
     (if step = 0 \<or> stop \<le> i then [] else i # py_range (i + step) stop step)"
  by pat_completeness auto
termination
  by (relation "measure (\<lambda>(i, stop, step). stop - i)") auto

declare py_range.simps [simp del]

section \<open>The logger\<close>

text \<open>
  Each call of the logger appends one record; the arguments of the format string are
  kept instead of the formatted text.
\<close>

datatype log_record =
    Info_parsed nat nat
  | Info_starting_restore nat
  | Info_restored nat nat nat
  | Warning_batch_may_have_failed nat json
  | Error_failed_batch nat py_error
  | Error_backup_not_found
  | Info_loading_backup
  | Info_loaded nat
  | Info_logging_in
  | Info_authenticated
  | Info_restore_completed nat nat
  | Error_restore_failed py_error
  | Info_extracting
  | Info_found_profile
  | Info_extracted
  | Error_auth_extraction_failed py_error

section \<open>movie\_extractor.py: parse\_library\_data\<close>

record movie_data =
  imdbID :: json
  Title :: json
  poster :: json
  year :: json
  item_type :: json

datatype category = Skipped | Watched movie_data | Watchlist movie_data

text \<open>\<open>state = item.get('state', {}); flagged_watched = state.get('timesWatched', 0)\<close>\<close>

definition flagged_watched :: "json \<Rightarrow> py_error + json" where
  "flagged_watched item =
     bind_e (py_get item ''state'' (JDict [])) (\<lambda>state. py_get state ''timesWatched'' (JInt 0))"

text \<open>
  \<open>poster = item.get('poster')\<close>, replaced by \<open>item['meta']['poster']\<close> when it is falsy
  and \<open>'meta' in item and 'poster' in item['meta']\<close>.
\<close>

definition item_poster :: "json \<Rightarrow> py_error + json" where
  "item_poster item =
     bind_e (py_get item ''poster'' JNull) (\<lambda>p.
       if py_truthy p then Inr p
       else bind_e (py_in ''meta'' item) (\<lambda>has_meta.
         if \<not> has_meta then Inr p
         else bind_e (py_getitem item ''meta'') (\<lambda>meta.
           bind_e (py_in ''poster'' meta) (\<lambda>has_poster.
             if \<not> has_poster then Inr p
             else py_getitem meta ''poster''))))"

text \<open>
  \<open>year = item.get('year')\<close>, replaced by \<open>item['meta'].get('year')\<close> when it is falsy
  and \<open>'meta' in item\<close>.
\<close>

definition item_year :: "json \<Rightarrow> py_error + json" where
  "item_year item =
     bind_e (py_get item ''year'' JNull) (\<lambda>y.
       if py_truthy y then Inr y
       else bind_e (py_in ''meta'' item) (\<lambda>has_meta.
         if \<not> has_meta then Inr y
         else bind_e (py_getitem item ''meta'') (\<lambda>meta. py_get meta ''year'' JNull)))"

text \<open>
  The body of the loop for one item, in the order of the source: the fields are read
  first (and may raise), then the item is skipped when \<open>not imdb_id or not name\<close>,
  and only then is the counter compared with zero (which may raise too).
\<close>

definition classify_item :: "json \<Rightarrow> py_error + category" where
  "classify_item item =
     bind_e (py_get item ''_id'' (JStr [])) (\<lambda>imdb_id.
     bind_e (py_get item ''name'' (JStr [])) (\<lambda>name.
     bind_e (flagged_watched item) (\<lambda>fw.
     bind_e (item_poster item) (\<lambda>p.
     bind_e (item_year item) (\<lambda>y.
     bind_e (py_get item ''type'' (JStr ''movie'')) (\<lambda>t.
       if \<not> py_truthy imdb_id \<or> \<not> py_truthy name then Inr Skipped
       else
         let movie = \<lparr>imdbID = imdb_id, Title = name, poster = p, year = y, item_type = t\<rparr>
         in bind_e (py_gt_zero fw) (\<lambda>w.
              if w then Inr (Watched movie) else Inr (Watchlist movie))))))))"

text \<open>The loop, with the two lists it appends to.\<close>

fun parse_items ::
  "json list \<Rightarrow> movie_data list \<Rightarrow> movie_data list \<Rightarrow> py_error + (movie_data list \<times> movie_data list)"
where
  "parse_items [] watched_items watchlist_items = Inr (watched_items, watchlist_items)"
| "parse_items (item # rest) watched_items watchlist_items =
     (case classify_item item of
        Inl e \<Rightarrow> Inl e
      | Inr Skipped \<Rightarrow> parse_items rest watched_items watchlist_items
      | Inr (Watched m) \<Rightarrow> parse_items rest (watched_items @ [m]) watchlist_items
      | Inr (Watchlist m) \<Rightarrow> parse_items rest watched_items (watchlist_items @ [m]))"

text \<open>
  \<open>result = api_response.get('result', [])\<close>, as the sequence that
  \<open>for item in result\<close> runs through.
\<close>

definition result_items :: "json \<Rightarrow> py_error + json list" where
  "result_items api_response = bind_e (py_get api_response ''result'' (JList [])) py_iter"

text \<open>
  \<open>parse_library_data(api_response, logger)\<close>: the logger is threaded through; it
  receives one record when the loop has ended without an exception.
\<close>

definition parse_library_data ::
  "json \<Rightarrow> log_record list \<Rightarrow> (py_error + (movie_data list \<times> movie_data list)) \<times> log_record list"
where
  "parse_library_data api_response logger =
     (case result_items api_response of
        Inl e \<Rightarrow> (Inl e, logger)
      | Inr result \<Rightarrow>
          (case parse_items result [] [] of
             Inl e \<Rightarrow> (Inl e, logger)
           | Inr (watched_items, watchlist_items) \<Rightarrow>
               (Inr (watched_items, watchlist_items),
                logger @ [Info_parsed (length watched_items) (length watchlist_items)])))"

section \<open>library\_importer.py: load\_backup and restore\_library\<close>

fun is_dict :: "json \<Rightarrow> bool" where
  "is_dict (JDict d) = True"
| "is_dict _ = False"

fun is_list :: "json \<Rightarrow> bool" where
  "is_list (JList xs) = True"
| "is_list _ = False"

definition invalid_format_msg :: string where
  "invalid_format_msg = ''Invalid backup format. Expected list or API response dict.''"

text \<open>
  \<open>load_backup(filepath)\<close>. The argument is what \<open>open\<close> followed by \<open>json.load\<close>
  gives for the path: the decoded document, or the exception either of them raised.
  Every exception inside the \<open>try\<close>, the function's own \<open>ValueError\<close> included, is
  caught and raised again as \<open>ValueError(f"Failed to load backup: {e}")\<close>.
\<close>

definition load_backup :: "py_error + json \<Rightarrow> py_error + json" where
  "load_backup file =
     (case bind_e file (\<lambda>data.
             if is_dict data \<and> py_in ''result'' data = Inr True then py_getitem data ''result''
             else if is_list data then Inr data
             else Inl (ValueError invalid_format_msg))
      of Inl e \<Rightarrow> Inl (Failed_to_load e)
       | Inr items \<Rightarrow> Inr items)"

text \<open>
  The body of one write request, and what \<open>requests.post(url, json=payload, timeout=30)\<close>
  can do: raise (no connection, timeout, a payload that cannot be serialised), or
  return a response with a status code and a body, which is \<open>None\<close> here when
  \<open>response.json()\<close> cannot decode it. The remote store is a state \<open>'w\<close> that each
  request may read and change.
\<close>

record payload =
  authKey :: json
  collection :: string
  changes :: json

datatype post_outcome = Post_raises py_error | Post_returns nat "json option"

type_synonym 'w http_post = "'w \<Rightarrow> payload \<Rightarrow> post_outcome \<times> 'w"

record 'w restore_state =
  success_count :: nat
  posted :: "payload list"
  logged :: "log_record list"
  remote :: 'w

definition batch_size :: nat where
  "batch_size = 50"

text \<open>
  \<open>response.raise_for_status(); result = response.json()\<close>: a status from 400 to 599
  raises \<open>HTTPError\<close>.
\<close>

definition response_json :: "post_outcome \<Rightarrow> py_error + json" where
  "response_json outcome =
     (case outcome of
        Post_raises e \<Rightarrow> Inl e
      | Post_returns status body \<Rightarrow>
          if 400 \<le> status \<and> status < 600 then Inl (HTTPError status)
          else (case body of None \<Rightarrow> Inl JSONDecodeError | Some result \<Rightarrow> Inr result))"

text \<open>\<open>result.get("result") == "ok" or result.get("success") == True\<close>\<close>

definition accepted :: "json \<Rightarrow> py_error + bool" where
  "accepted result =
     bind_e (py_get result ''result'' JNull) (\<lambda>r.
       if py_eq_str r ''ok'' then Inr True
       else bind_e (py_get result ''success'' JNull) (\<lambda>s. Inr (py_eq_True s)))"

text \<open>The statements inside the \<open>try\<close> of one batch, after the request has been made.\<close>

definition try_batch ::
  "post_outcome \<Rightarrow> json \<Rightarrow> nat \<Rightarrow> nat \<Rightarrow> 'w restore_state \<Rightarrow> py_error + 'w restore_state"
where
  "try_batch outcome batch i total_items st =
     bind_e (response_json outcome) (\<lambda>result.
     bind_e (accepted result) (\<lambda>ok.
       if ok then
         bind_e (py_len batch) (\<lambda>n.
           Inr (st\<lparr>success_count := success_count st + n,
                   logged := logged st @ [Info_restored (i + 1) (min (i + n) total_items) total_items]\<rparr>))
       else
         Inr (st\<lparr>logged := logged st @ [Warning_batch_may_have_failed (i div batch_size + 1) result]\<rparr>)))"

text \<open>
  One turn of the loop. The slice is taken outside the \<open>try\<close>, so an exception there
  leaves the function; an exception inside the \<open>try\<close> is logged and the turn ends.
\<close>

definition restore_batch ::
  "'w http_post \<Rightarrow> json \<Rightarrow> json \<Rightarrow> nat \<Rightarrow> nat \<Rightarrow> 'w restore_state \<Rightarrow> py_error + 'w restore_state"
where
  "restore_batch post auth_key items total_items i st =
     bind_e (py_slice items i (i + batch_size)) (\<lambda>batch.
       let request = \<lparr>authKey = auth_key, collection = ''libraryItem'', changes = batch\<rparr>;
           answer = post (remote st) request;
           st1 = st\<lparr>posted := posted st @ [request], remote := snd answer\<rparr>
       in Inr (case try_batch (fst answer) batch i total_items st1 of
                 Inl e \<Rightarrow> st1\<lparr>logged := logged st1 @ [Error_failed_batch i e]\<rparr>
               | Inr st2 \<Rightarrow> st2))"

fun restore_batches ::
  "'w http_post \<Rightarrow> json \<Rightarrow> json \<Rightarrow> nat \<Rightarrow> nat list \<Rightarrow> 'w restore_state
     \<Rightarrow> py_error option \<times> 'w restore_state"
where
  "restore_batches post auth_key items total_items [] st = (None, st)"
| "restore_batches post auth_key items total_items (i # rest) st =
     (case restore_batch post auth_key items total_items i st of
        Inl e \<Rightarrow> (Some e, st)
      | Inr st' \<Rightarrow> restore_batches post auth_key items total_items rest st')"

text \<open>
  \<open>restore_library(auth_key, items, logger)\<close>, run against the remote store \<open>w\<close>. The
  result is the returned count or the exception that left the function, together with
  the final state: the requests made, the log and the remote store.
\<close>

definition restore_library ::
  "'w http_post \<Rightarrow> json \<Rightarrow> json \<Rightarrow> log_record list \<Rightarrow> 'w \<Rightarrow> (py_error + nat) \<times> 'w restore_state"
where
  "restore_library post auth_key items lg w =
     (case py_len items of
        Inl e \<Rightarrow> (Inl e, \<lparr>success_count = 0, posted = [], logged = lg, remote = w\<rparr>)
      | Inr total_items \<Rightarrow>
          (case restore_batches post auth_key items total_items (py_range 0 total_items batch_size)
                  \<lparr>success_count = 0, posted = [],
                   logged = lg @ [Info_starting_restore total_items], remote = w\<rparr> of
             (Some e, st) \<Rightarrow> (Inl e, st)
           | (None, st) \<Rightarrow> (Inr (success_count st), st)))"

section \<open>auth\_extractor.py\<close>

datatype browser_kind = Firefox | Webkit | Chromium

record launch_call =
  launcher :: browser_kind
  headless_arg :: bool

text \<open>
  \<open>_launch_browser(self, playwright, headless)\<close>: the launcher is looked up by
  \<open>self.browser_type\<close> with Chromium as the default, and \<open>launch\<close> is called with the
  literal \<open>headless=True\<close>.
\<close>

definition launch_browser :: "string \<Rightarrow> bool \<Rightarrow> launch_call" where
  "launch_browser browser_type headless =
     \<lparr>launcher =
        (case map_of [(''firefox'', Firefox), (''webkit'', Webkit), (''chromium'', Chromium)]
                browser_type of
           Some b \<Rightarrow> b
         | None \<Rightarrow> Chromium),
      headless_arg = True\<rparr>"

text \<open>
  \<open>_extract_auth_key_from_storage\<close>, from the snapshot \<open>storage_data\<close> that
  \<open>page.evaluate\<close> returned. The loop keeps the first value that is a \<open>dict\<close> containing
  \<open>'auth'\<close>.
\<close>

fun find_profile :: "(string \<times> json) list \<Rightarrow> json option" where
  "find_profile [] = None"
| "find_profile ((key, v) # rest) =
     (if is_dict v \<and> py_in ''auth'' v = Inr True then Some v else find_profile rest)"

definition no_profile_msg :: string where
  "no_profile_msg = ''Could not find profile data in localStorage''"

definition no_auth_msg :: string where
  "no_auth_msg = ''No 'auth' field found in profile data''"

definition no_key_msg :: string where
  "no_key_msg = ''No 'key' field found in auth data''"

text \<open>The statements after the loop; \<open>None\<close> stands for Python's \<open>None\<close>.\<close>

definition auth_key_of_profile :: "json option \<Rightarrow> py_error + json" where
  "auth_key_of_profile profile_data =
     (case profile_data of
        None \<Rightarrow> Inl (ValueError no_profile_msg)
      | Some profile \<Rightarrow>
          if \<not> py_truthy profile then Inl (ValueError no_profile_msg)
          else bind_e (py_in ''auth'' profile) (\<lambda>has_auth.
            if \<not> has_auth then Inl (ValueError no_auth_msg)
            else bind_e (py_getitem profile ''auth'') (\<lambda>auth_data.
              bind_e (py_in ''key'' auth_data) (\<lambda>has_key.
                if \<not> has_key then Inl (ValueError no_key_msg)
                else py_getitem auth_data ''key''))))"

definition extract_auth_key_from_storage ::
  "(string \<times> json) list \<Rightarrow> log_record list \<Rightarrow> (py_error + json) \<times> log_record list"
where
  "extract_auth_key_from_storage storage_data lg =
     (let profile_data = find_profile storage_data;
          lg1 = lg @ [Info_extracting] @ (if profile_data = None then [] else [Info_found_profile])
      in case auth_key_of_profile profile_data of
           Inl e \<Rightarrow> (Inl e, lg1)
         | Inr auth_key \<Rightarrow> (Inr auth_key, lg1 @ [Info_extracted]))"

text \<open>
  What the browser does once \<open>launch\<close> has been called with given arguments is outside
  the program: the launch fails, or the page steps (\<open>_create_page\<close>,
  \<open>_navigate_and_login\<close>, \<open>page.evaluate\<close>) fail, or they deliver the storage snapshot.
  It may depend on the launch arguments and on the credentials typed into the form.
  The lines logged while navigating are left out.
\<close>

datatype session_outcome =
    Launch_fails py_error
  | Page_fails py_error
  | Snapshot "(string \<times> json) list"

type_synonym browser_session = "launch_call \<Rightarrow> string \<times> string \<Rightarrow> session_outcome"

datatype browser_event = Launched launch_call | Closed

record extractor =
  browser_type :: string
  email :: string
  password :: string

record auth_run =
  auth_result :: "py_error + json"
  browser_events :: "browser_event list"
  auth_log :: "log_record list"

text \<open>
  \<open>extract_auth_key(self, headless)\<close>: the launch is outside the \<open>try\<close>; everything
  after it is inside, with the error logged and raised again and the browser closed in
  the \<open>finally\<close>.
\<close>

definition extract_auth_key :: "browser_session \<Rightarrow> extractor \<Rightarrow> bool \<Rightarrow> log_record list \<Rightarrow> auth_run" where
  "extract_auth_key session self headless lg =
     (let call = launch_browser (browser_type self) headless
      in case session call (email self, password self) of
           Launch_fails e \<Rightarrow>
             \<lparr>auth_result = Inl e, browser_events = [Launched call], auth_log = lg\<rparr>
         | Page_fails e \<Rightarrow>
             \<lparr>auth_result = Inl e, browser_events = [Launched call, Closed],
              auth_log = lg @ [Error_auth_extraction_failed e]\<rparr>
         | Snapshot storage_data \<Rightarrow>
             (case extract_auth_key_from_storage storage_data lg of
                (Inl e, lg1) \<Rightarrow>
                  \<lparr>auth_result = Inl e, browser_events = [Launched call, Closed],
                   auth_log = lg1 @ [Error_auth_extraction_failed e]\<rparr>
              | (Inr auth_key, lg1) \<Rightarrow>
                  \<lparr>auth_result = Inr auth_key, browser_events = [Launched call, Closed],
                   auth_log = lg1\<rparr>))"

text \<open>
  \<open>extract_stremio_auth_key(headless, browser_type)\<close>: the constructor reads the two
  environment variables (\<open>None\<close> when unset) and raises when either is unset or empty.
\<close>

definition credentials_msg :: string where
  "credentials_msg = ''Please set STREMIO_EMAIL and STREMIO_PASSWORD in your .env file''"

definition extract_stremio_auth_key ::
  "string option \<times> string option \<Rightarrow> browser_session \<Rightarrow> bool \<Rightarrow> string \<Rightarrow> log_record list \<Rightarrow> auth_run"
where
  "extract_stremio_auth_key env session headless btype lg =
     (case env of
        (Some e, Some p) \<Rightarrow>
          if e = [] \<or> p = [] then
            \<lparr>auth_result = Inl (ValueError credentials_msg), browser_events = [], auth_log = lg\<rparr>
          else extract_auth_key session \<lparr>browser_type = btype, email = e, password = p\<rparr> headless lg
      | _ \<Rightarrow> \<lparr>auth_result = Inl (ValueError credentials_msg), browser_events = [], auth_log = lg\<rparr>)"

section \<open>library\_importer.py: main\<close>

record 'w importer_run =
  exit_code :: nat
  run_browser :: "browser_event list"
  run_posted :: "payload list"
  run_log :: "log_record list"
  run_remote :: 'w

text \<open>
  \<open>main()\<close> after the arguments have been parsed. \<open>file_exists\<close> is the answer of
  \<open>Path(args.backup_file).exists()\<close>, \<open>file\<close> what opening and decoding the file gives,
  \<open>env\<close> the two environment variables. Every exception of the \<open>try\<close> block is
  logged and gives exit code 1.
\<close>

definition importer_main ::
  "bool \<Rightarrow> py_error + json \<Rightarrow> string option \<times> string option \<Rightarrow> browser_session
     \<Rightarrow> 'w http_post \<Rightarrow> 'w \<Rightarrow> 'w importer_run"
where
  "importer_main file_exists file env session post w =
     (if \<not> file_exists then
        \<lparr>exit_code = 1, run_browser = [], run_posted = [],
         run_log = [Error_backup_not_found], run_remote = w\<rparr>
      else
        case bind_e (load_backup file) (\<lambda>items. bind_e (py_len items) (\<lambda>n. Inr (items, n))) of
          Inl e \<Rightarrow>
            \<lparr>exit_code = 1, run_browser = [], run_posted = [],
             run_log = [Info_loading_backup, Error_restore_failed e], run_remote = w\<rparr>
        | Inr (items, n) \<Rightarrow>
            let a = extract_stremio_auth_key env session True ''chromium''
                      [Info_loading_backup, Info_loaded n, Info_logging_in]
            in case auth_result a of
                 Inl e \<Rightarrow>
                   \<lparr>exit_code = 1, run_browser = browser_events a, run_posted = [],
                    run_log = auth_log a @ [Error_restore_failed e], run_remote = w\<rparr>
               | Inr auth_key \<Rightarrow>
                   (case restore_library post auth_key items (auth_log a @ [Info_authenticated]) w of
                      (Inl e, st) \<Rightarrow>
                        \<lparr>exit_code = 1, run_browser = browser_events a, run_posted = posted st,
                         run_log = logged st @ [Error_restore_failed e], run_remote = remote st\<rparr>
                    | (Inr restored, st) \<Rightarrow>
                        \<lparr>exit_code = 0, run_browser = browser_events a, run_posted = posted st,
                         run_log = logged st @ [Info_restore_completed restored n],
                         run_remote = remote st\<rparr>))"

section \<open>Notions used to state the properties\<close>

text \<open>What one classified item contributes to each partition, and to both together.\<close>

fun watched_of :: "category \<Rightarrow> movie_data list" where
  "watched_of (Watched m) = [m]"
| "watched_of _ = []"

fun watchlist_of :: "category \<Rightarrow> movie_data list" where
  "watchlist_of (Watchlist m) = [m]"
| "watchlist_of _ = []"

fun movies_of :: "category \<Rightarrow> movie_data list" where
  "movies_of Skipped = []"
| "movies_of (Watched m) = [m]"
| "movies_of (Watchlist m) = [m]"

text \<open>
  A raw item of the shape the remote store delivers: a mapping whose \<open>state\<close>, when
  present, is a mapping with a numeric \<open>timesWatched\<close> or none, and whose \<open>meta\<close>, when
  present, is a mapping.
\<close>

fun is_number :: "json \<Rightarrow> bool" where
  "is_number (JInt n) = True"
| "is_number (JBool b) = True"
| "is_number (JFloat f) = True"
| "is_number _ = False"

fun counter_ok :: "json \<Rightarrow> bool" where
  "counter_ok (JDict s) = (case map_of s ''timesWatched'' of None \<Rightarrow> True | Some v \<Rightarrow> is_number v)"
| "counter_ok _ = False"

fun well_formed_item :: "json \<Rightarrow> bool" where
  "well_formed_item (JDict d) =
     ((case map_of d ''state'' of None \<Rightarrow> True | Some st \<Rightarrow> counter_ok st) \<and>
      (case map_of d ''meta'' of None \<Rightarrow> True | Some m \<Rightarrow> is_dict m))"
| "well_formed_item _ = False"

text \<open>
  The normalization as the specification words it, on the raw item alone. A record is
  retained when its identifier and its name are present and non-empty; its counter is
  \<open>timesWatched\<close> inside \<open>state\<close>, taken as 0 when either is absent; it is watched when
  the counter is strictly positive, and on the watchlist otherwise. The canonical item
  takes the poster and the year from the record, else from \<open>meta\<close>, and the type with
  \<open>movie\<close> as the default.
\<close>

definition field_or :: "(string \<times> json) list \<Rightarrow> string \<Rightarrow> json \<Rightarrow> json" where
  "field_or d k dflt = (case map_of d k of None \<Rightarrow> dflt | Some v \<Rightarrow> v)"

fun has_id_and_name :: "json \<Rightarrow> bool" where
  "has_id_and_name (JDict d) =
     (py_truthy (field_or d ''_id'' (JStr [])) \<and> py_truthy (field_or d ''name'' (JStr [])))"
| "has_id_and_name _ = False"

fun state_counter :: "json \<Rightarrow> json" where
  "state_counter (JDict s) = field_or s ''timesWatched'' (JInt 0)"
| "state_counter _ = JNull"

fun times_watched :: "json \<Rightarrow> json" where
  "times_watched (JDict d) = (case map_of d ''state'' of None \<Rightarrow> JInt 0 | Some st \<Rightarrow> state_counter st)"
| "times_watched _ = JNull"

fun strictly_positive :: "json \<Rightarrow> bool" where
  "strictly_positive (JInt n) = (0 < n)"
| "strictly_positive (JBool b) = b"
| "strictly_positive (JFloat (Finite r)) = (0 < r)"
| "strictly_positive (JFloat PosInf) = True"
| "strictly_positive _ = False"

definition is_watched :: "json \<Rightarrow> bool" where
  "is_watched item = (has_id_and_name item \<and> strictly_positive (times_watched item))"

definition is_watchlist :: "json \<Rightarrow> bool" where
  "is_watchlist item = (has_id_and_name item \<and> \<not> strictly_positive (times_watched item))"

fun meta_poster :: "json \<Rightarrow> json \<Rightarrow> json" where
  "meta_poster (JDict m) p = field_or m ''poster'' p"
| "meta_poster _ p = p"

fun meta_year :: "json \<Rightarrow> json \<Rightarrow> json" where
  "meta_year (JDict m) y = field_or m ''year'' JNull"
| "meta_year _ y = y"

definition canonical_poster :: "(string \<times> json) list \<Rightarrow> json" where
  "canonical_poster d =
     (let p = field_or d ''poster'' JNull
      in if py_truthy p then p
         else (case map_of d ''meta'' of None \<Rightarrow> p | Some m \<Rightarrow> meta_poster m p))"

definition canonical_year :: "(string \<times> json) list \<Rightarrow> json" where
  "canonical_year d =
     (let y = field_or d ''year'' JNull
      in if py_truthy y then y
         else (case map_of d ''meta'' of None \<Rightarrow> y | Some m \<Rightarrow> meta_year m y))"

fun canonical_item :: "json \<Rightarrow> movie_data" where
  "canonical_item (JDict d) =
     \<lparr>imdbID = field_or d ''_id'' (JStr []), Title = field_or d ''name'' (JStr []),
      poster = canonical_poster d, year = canonical_year d,
      item_type = field_or d ''type'' (JStr ''movie'')\<rparr>"
| "canonical_item _ =
     \<lparr>imdbID = JNull, Title = JNull, poster = JNull, year = JNull, item_type = JNull\<rparr>"

text \<open>A field that is missing or the empty string.\<close>

definition lacks_field :: "(string \<times> json) list \<Rightarrow> string \<Rightarrow> bool" where
  "lacks_field d k = (map_of d k = None \<or> map_of d k = Some (JStr []))"

text \<open>
  The batches of a list: consecutive slices of \<open>n\<close> elements, the last one shorter when
  \<open>n\<close> does not divide the length.
\<close>

function chunks :: "nat \<Rightarrow> 'a list \<Rightarrow> 'a list list" where
  "chunks n xs = (if n = 0 \<or> xs = [] then [] else take n xs # chunks n (drop n xs))"
  by pat_completeness auto
termination
  by (relation "measure (\<lambda>(n, xs). length xs)") auto

declare chunks.simps [simp del]

text \<open>
  The answers that a sequence of requests receives when they are made one after the
  other, starting from the remote store \<open>w\<close>, and the store they leave behind.
\<close>

fun answers :: "'w http_post \<Rightarrow> 'w \<Rightarrow> payload list \<Rightarrow> post_outcome list" where
  "answers post w [] = []"
| "answers post w (r # rs) = fst (post w r) # answers post (snd (post w r)) rs"

fun remote_after :: "'w http_post \<Rightarrow> 'w \<Rightarrow> payload list \<Rightarrow> 'w" where
  "remote_after post w [] = w"
| "remote_after post w (r # rs) = remote_after post (snd (post w r)) rs"

text \<open>A batch counts as written when the \<open>try\<close> block reaches the success branch.\<close>

definition batch_succeeded :: "post_outcome \<Rightarrow> bool" where
  "batch_succeeded outcome =
     (case response_json outcome of
        Inl e \<Rightarrow> False
      | Inr result \<Rightarrow> accepted result = Inr True)"

text \<open>The one log record that a batch starting at index \<open>i\<close> leaves.\<close>

definition batch_record :: "nat \<Rightarrow> nat \<Rightarrow> json list \<Rightarrow> post_outcome \<Rightarrow> log_record" where
  "batch_record total_items i batch outcome =
     (case bind_e (response_json outcome) (\<lambda>result.
             bind_e (accepted result) (\<lambda>ok. Inr (result, ok))) of
        Inl e \<Rightarrow> Error_failed_batch i e
      | Inr (result, ok) \<Rightarrow>
          if ok then Info_restored (i + 1) (min (i + length batch) total_items) total_items
          else Warning_batch_may_have_failed (i div batch_size + 1) result)"

text \<open>The request that carries one batch of a list of items.\<close>

definition request_of :: "json \<Rightarrow> json list \<Rightarrow> payload" where
  "request_of auth_key batch = \<lparr>authKey = auth_key, collection = ''libraryItem'', changes = JList batch\<rparr>"

text \<open>The log records of consecutive batches, the first one starting at index \<open>i\<close>.\<close>

fun batch_records :: "nat \<Rightarrow> nat \<Rightarrow> json list list \<Rightarrow> post_outcome list \<Rightarrow> log_record list" where
  "batch_records total_items i (b # bs) (out # outs) =
     batch_record total_items i b out # batch_records total_items (i + batch_size) bs outs"
| "batch_records total_items i _ _ = []"

text \<open>The sum of the sizes of the batches whose answer is a success.\<close>

definition tally :: "json list list \<Rightarrow> post_outcome list \<Rightarrow> nat" where
  "tally bs outs = sum_list (map2 (\<lambda>b out. if batch_succeeded out then length b else 0) bs outs)"

section \<open>Concrete inputs\<close>

text \<open>
  The three records of the specification's end-to-end scenario, two more items for the
  threshold of the counter, and the movies they are mapped to.
\<close>

definition item_A :: json where
  "item_A = JDict [(''_id'', JStr ''tt001''), (''name'', JStr ''A''),
                   (''state'', JDict [(''timesWatched'', JInt 2)])]"

definition item_B :: json where
  "item_B = JDict [(''_id'', JStr ''tt002''), (''name'', JStr ''B''),
                   (''state'', JDict [(''timesWatched'', JInt 0)])]"

definition item_C :: json where
  "item_C = JDict [(''_id'', JStr []), (''name'', JStr ''C''), (''state'', JDict [])]"

definition e2e :: json where
  "e2e = JDict [(''result'', JList [item_A, item_B, item_C])]"

definition movie_A :: movie_data where
  "movie_A = \<lparr>imdbID = JStr ''tt001'', Title = JStr ''A'', poster = JNull, year = JNull,
              item_type = JStr ''movie''\<rparr>"

definition movie_B :: movie_data where
  "movie_B = \<lparr>imdbID = JStr ''tt002'', Title = JStr ''B'', poster = JNull, year = JNull,
              item_type = JStr ''movie''\<rparr>"

definition item_once :: json where
  "item_once = JDict [(''_id'', JStr ''tt003''), (''name'', JStr ''D''),
                      (''state'', JDict [(''timesWatched'', JInt 1)])]"

definition item_no_state :: json where
  "item_no_state = JDict [(''_id'', JStr ''tt005''), (''name'', JStr ''F'')]"

definition item_no_counter :: json where
  "item_no_counter = JDict [(''_id'', JStr ''tt004''), (''name'', JStr ''E''), (''state'', JDict [])]"

definition movie_no_counter :: movie_data where
  "movie_no_counter = \<lparr>imdbID = JStr ''tt004'', Title = JStr ''E'', poster = JNull, year = JNull,
              item_type = JStr ''movie''\<rparr>"

definition threshold_items :: "json list" where
  "threshold_items = [item_once, item_B, item_no_counter, item_no_state]"

definition threshold_response :: json where
  "threshold_response = JDict [(''result'', JList threshold_items)]"

definition movie_once :: movie_data where
  "movie_once = \<lparr>imdbID = JStr ''tt003'', Title = JStr ''D'', poster = JNull, year = JNull,
              item_type = JStr ''movie''\<rparr>"

definition movie_no_state :: movie_data where
  "movie_no_state = \<lparr>imdbID = JStr ''tt005'', Title = JStr ''F'', poster = JNull, year = JNull,
              item_type = JStr ''movie''\<rparr>"

definition dict_C :: "(string \<times> json) list" where
  "dict_C = [(''_id'', JStr []), (''name'', JStr ''C''), (''state'', JDict [])]"

text \<open>
  A remote store that counts the requests it has received and refuses the second one,
  one that accepts everything, and a backup of 120 items (three batches).
\<close>

definition flaky_post :: "nat http_post" where
  "flaky_post w r =
     (if w = 1 then Post_raises RequestException
      else Post_returns 200 (Some (JDict [(''result'', JStr ''ok'')])), Suc w)"

definition items_120 :: "json list" where
  "items_120 = map (\<lambda>n. JInt (int n)) [0..<120]"

text \<open>Storage snapshots, a browser session, and two backup documents.\<close>

definition storage_no_profile :: "(string \<times> json) list" where
  "storage_no_profile = [(''installation_id'', JStr ''abc''), (''schema_version'', JInt 4)]"

definition storage_profile_without_auth :: "(string \<times> json) list" where
  "storage_profile_without_auth =
     [(''schema_version'', JInt 4), (''profile'', JDict [(''settings'', JDict [])])]"

definition storage_auth_without_key :: "(string \<times> json) list" where
  "storage_auth_without_key =
     [(''schema_version'', JInt 4),
      (''profile'', JDict [(''auth'', JDict [(''user'', JStr ''u'')]), (''settings'', JDict [])])]"

definition storage_logged_in :: "(string \<times> json) list" where
  "storage_logged_in =
     [(''schema_version'', JInt 4),
      (''profile'', JDict [(''auth'', JDict [(''key'', JStr ''secret''), (''user'', JStr ''u'')])])]"

definition visible_session :: browser_session where
  "visible_session call creds =
     (if headless_arg call then Snapshot storage_logged_in else Page_fails BrowserError)"

definition backup_dict :: json where
  "backup_dict = JDict [(''result'', JList [JDict [(''_id'', JStr ''tt001'')]])]"

definition backup_list :: json where
  "backup_list = JList [JDict [(''_id'', JStr ''tt001'')]]"

definition accept_all :: "nat http_post" where
  "accept_all w r = (Post_returns 200 (Some (JDict [(''success'', JBool True)])), Suc w)"

section \<open>Normalization: classifying one item\<close>

lemma parse_items_sound:
  "parse_items items w l = Inr (w', l') \<Longrightarrow>
   \<exists>cs. map classify_item items = map Inr cs \<and>
        w' = w @ concat (map watched_of cs) \<and> l' = l @ concat (map watchlist_of cs)"
proof (induction items arbitrary: w l)
  case Nil
  then show ?case by simp
next
  case (Cons item rest)
  from Cons.prems obtain c where c: "classify_item item = Inr c"
    by (cases "classify_item item") auto
  show ?case
  proof (cases c)
    case Skipped
    with Cons.prems c have "parse_items rest w l = Inr (w', l')" by simp
    from Cons.IH [OF this] obtain cs where
      "map classify_item rest = map Inr cs" "w' = w @ concat (map watched_of cs)"
      "l' = l @ concat (map watchlist_of cs)" by blast
    with c Skipped show ?thesis by (intro exI [of _ "c # cs"]) simp
  next
    case (Watched m)
    with Cons.prems c have "parse_items rest (w @ [m]) l = Inr (w', l')" by simp
    from Cons.IH [OF this] obtain cs where
      "map classify_item rest = map Inr cs" "w' = (w @ [m]) @ concat (map watched_of cs)"
      "l' = l @ concat (map watchlist_of cs)" by blast
    with c Watched show ?thesis by (intro exI [of _ "c # cs"]) simp
  next
    case (Watchlist m)
    with Cons.prems c have "parse_items rest w (l @ [m]) = Inr (w', l')" by simp
    from Cons.IH [OF this] obtain cs where
      "map classify_item rest = map Inr cs" "w' = w @ concat (map watched_of cs)"
      "l' = (l @ [m]) @ concat (map watchlist_of cs)" by blast
    with c Watchlist show ?thesis by (intro exI [of _ "c # cs"]) simp
  qed
qed

lemma parse_items_complete:
  "map classify_item items = map Inr cs \<Longrightarrow>
   parse_items items w l = Inr (w @ concat (map watched_of cs), l @ concat (map watchlist_of cs))"
proof (induction items arbitrary: w l cs)
  case Nil
  then show ?case by simp
next
  case (Cons item rest)
  then obtain c cs' where cs: "cs = c # cs'" "classify_item item = Inr c"
    "map classify_item rest = map Inr cs'" by (cases cs) auto
  show ?case using Cons.IH [OF cs(3)] cs(1,2) by (cases c) simp_all
qed

lemma partition_shuffle:
  "concat (map movies_of cs) \<in> shuffles (concat (map watched_of cs)) (concat (map watchlist_of cs))"
proof (induction cs)
  case Nil show ?case by simp
next
  case (Cons c cs)
  then show ?case
    by (cases c) (auto intro: Cons_in_shuffles_leftI Cons_in_shuffles_rightI)
qed

lemma partition_lengths:
  "length (concat (map watched_of cs)) + length (concat (map watchlist_of cs))
     = length (filter (\<lambda>c. c \<noteq> Skipped) cs)"
proof (induction cs)
  case Nil show ?case by simp
next
  case (Cons c cs) then show ?case by (cases c) auto
qed

lemma py_gt_zero_number: "is_number v \<Longrightarrow> \<exists>b. py_gt_zero v = Inr b"
proof (cases v)
  case (JFloat f) then show ?thesis by (cases f) auto
qed auto

lemma flagged_watched_ok:
  "well_formed_item item \<Longrightarrow> \<exists>fw. flagged_watched item = Inr fw \<and> is_number fw"
  by (cases item)
     (auto simp: flagged_watched_def bind_e_def split: option.splits elim!: counter_ok.elims)

lemma item_poster_ok: "well_formed_item item \<Longrightarrow> \<exists>p. item_poster item = Inr p"
  by (cases item)
     (auto simp: item_poster_def bind_e_def split: option.splits elim!: is_dict.elims)

lemma item_year_ok: "well_formed_item item \<Longrightarrow> \<exists>y. item_year item = Inr y"
  by (cases item)
     (auto simp: item_year_def bind_e_def split: option.splits elim!: is_dict.elims)

lemma classify_item_total:
  assumes "well_formed_item item"
  shows "\<exists>c. classify_item item = Inr c"
proof -
  from assms obtain d where d: "item = JDict d"
    by (cases item) auto
  from flagged_watched_ok [OF assms] obtain fw where fw: "flagged_watched item = Inr fw" "is_number fw"
    by blast
  from item_poster_ok [OF assms] obtain p where p: "item_poster item = Inr p" by blast
  from item_year_ok [OF assms] obtain y where y: "item_year item = Inr y" by blast
  from py_gt_zero_number [OF fw(2)] obtain b where b: "py_gt_zero fw = Inr b" by blast
  show ?thesis
    using fw(1) p y b unfolding d classify_item_def by (simp add: bind_e_def Let_def)
qed

lemma classify_item_retained:
  assumes "classify_item item = Inr c" and "c \<noteq> Skipped"
  shows "\<exists>fw m. flagged_watched item = Inr fw \<and>
           (py_gt_zero fw = Inr True \<and> c = Watched m \<or> py_gt_zero fw = Inr False \<and> c = Watchlist m)"
  using assms unfolding classify_item_def bind_e_def Let_def
  by (auto split: sum.splits if_splits)

lemma classify_item_fields:
  assumes "classify_item item = Inr c" and "m \<in> set (movies_of c)"
  shows "py_truthy (imdbID m) \<and> py_truthy (Title m) \<and>
         py_get item ''_id'' (JStr []) = Inr (imdbID m) \<and> py_get item ''name'' (JStr []) = Inr (Title m)"
  using assms unfolding classify_item_def bind_e_def Let_def
  by (auto split: sum.splits if_splits)

lemma classify_item_lacking:
  assumes "lacks_field d ''_id'' \<or> lacks_field d ''name''"
  shows "classify_item (JDict d) = Inr Skipped \<or>
         (\<exists>e. classify_item (JDict d) = Inl e \<and>
            (flagged_watched (JDict d) = Inl e \<or> item_poster (JDict d) = Inl e \<or> item_year (JDict d) = Inl e))"
  using assms unfolding classify_item_def bind_e_def Let_def lacks_field_def
  by (auto split: sum.splits if_splits)

lemma classify_examples:
  "classify_item item_A = Inr (Watched movie_A)"
  "classify_item item_B = Inr (Watchlist movie_B)"
  "classify_item item_C = Inr Skipped"
  by (simp_all add: classify_item_def flagged_watched_def item_poster_def item_year_def
        bind_e_def item_A_def item_B_def item_C_def movie_A_def movie_B_def)

lemma e2e_run:
  "parse_library_data e2e [] = (Inr ([movie_A], [movie_B]), [Info_parsed 1 1])"
  by (simp add: parse_library_data_def result_items_def bind_e_def e2e_def classify_examples)

lemma parse_items_skip:
  "classify_item item = Inr Skipped \<Longrightarrow>
   parse_items (xs @ item # ys) w l = parse_items (xs @ ys) w l"
proof (induction xs arbitrary: w l)
  case Nil
  then show ?case by simp
next
  case (Cons x xs)
  show ?case
  proof (cases "classify_item x")
    case (Inl e)
    then show ?thesis by simp
  next
    case (Inr c)
    with Cons show ?thesis by (cases c) simp_all
  qed
qed

lemma parse_library_data_Inr:
  "parse_library_data r lg = (Inr (w, l), lg') \<longleftrightarrow>
     (\<exists>items. result_items r = Inr items \<and> parse_items items [] [] = Inr (w, l)
        \<and> lg' = lg @ [Info_parsed (length w) (length l)])"
  by (auto simp: parse_library_data_def split: sum.splits)

lemma watched_of_sub: "set (watched_of c) \<subseteq> set (movies_of c)"
  by (cases c) auto

lemma watchlist_of_sub: "set (watchlist_of c) \<subseteq> set (movies_of c)"
  by (cases c) auto

lemma parsed_movies_truthy:
  assumes "parse_items items [] [] = Inr (w, l)" and "m \<in> set w \<union> set l"
  shows "py_truthy (imdbID m) \<and> py_truthy (Title m)"
proof -
  from parse_items_sound [OF assms(1)] obtain cs where cs:
    "map classify_item items = map Inr cs" "w = concat (map watched_of cs)"
    "l = concat (map watchlist_of cs)" by auto
  from assms(2) cs(2,3) obtain c where c: "c \<in> set cs" "m \<in> set (movies_of c)"
    using watched_of_sub watchlist_of_sub by fastforce
  from c(1) obtain k where k: "k < length cs" "cs ! k = c" by (auto simp: in_set_conv_nth)
  from cs(1) have "length items = length cs" using map_eq_imp_length_eq by blast
  with k cs(1) have "classify_item (items ! k) = Inr c"
    by (metis nth_map)
  from classify_item_fields [OF this c(2)] show ?thesis by simp
qed

lemma py_get_dict: "py_get (JDict d) k dflt = Inr (field_or d k dflt)"
  by (simp add: field_or_def)

lemma py_gt_zero_positive: "py_gt_zero v = Inr b \<Longrightarrow> strictly_positive v = b"
proof (cases v)
  case (JFloat f)
  assume "py_gt_zero v = Inr b"
  with JFloat show ?thesis by (cases f) auto
qed auto

lemma flagged_watched_times_watched:
  "flagged_watched (JDict d) = Inr fw \<Longrightarrow> times_watched (JDict d) = fw"
proof (cases "map_of d ''state''")
  case None
  assume "flagged_watched (JDict d) = Inr fw"
  with None show ?thesis by (simp add: flagged_watched_def bind_e_def)
next
  case (Some st)
  assume "flagged_watched (JDict d) = Inr fw"
  with Some show ?thesis
    by (cases st) (simp_all add: flagged_watched_def bind_e_def field_or_def)
qed

lemma item_poster_canonical:
  "item_poster (JDict d) = Inr p \<Longrightarrow> p = canonical_poster d"
proof (cases "map_of d ''meta''")
  case None
  assume "item_poster (JDict d) = Inr p"
  with None show ?thesis
    by (simp add: item_poster_def canonical_poster_def bind_e_def field_or_def Let_def
        split: if_splits)
next
  case (Some m)
  assume "item_poster (JDict d) = Inr p"
  with Some show ?thesis
    by (cases m)
       (auto simp: item_poster_def canonical_poster_def bind_e_def field_or_def Let_def
          split: if_splits option.splits)
qed

lemma item_year_canonical:
  "item_year (JDict d) = Inr y \<Longrightarrow> y = canonical_year d"
proof (cases "map_of d ''meta''")
  case None
  assume "item_year (JDict d) = Inr y"
  with None show ?thesis
    by (simp add: item_year_def canonical_year_def bind_e_def field_or_def Let_def
        split: if_splits)
next
  case (Some m)
  assume "item_year (JDict d) = Inr y"
  with Some show ?thesis
    by (cases m)
       (auto simp: item_year_def canonical_year_def bind_e_def field_or_def Let_def
          split: if_splits option.splits)
qed

lemma classify_item_dict:
  "classify_item (JDict d) =
     bind_e (flagged_watched (JDict d)) (\<lambda>fw.
     bind_e (item_poster (JDict d)) (\<lambda>p.
     bind_e (item_year (JDict d)) (\<lambda>y.
       if \<not> has_id_and_name (JDict d) then Inr Skipped
       else bind_e (py_gt_zero fw) (\<lambda>w.
              Inr (if w
                   then Watched \<lparr>imdbID = field_or d ''_id'' (JStr []),
                          Title = field_or d ''name'' (JStr []), poster = p, year = y,
                          item_type = field_or d ''type'' (JStr ''movie'')\<rparr>
                   else Watchlist \<lparr>imdbID = field_or d ''_id'' (JStr []),
                          Title = field_or d ''name'' (JStr []), poster = p, year = y,
                          item_type = field_or d ''type'' (JStr ''movie'')\<rparr>)))))"
  by (simp add: classify_item_def bind_e_def field_or_def Let_def split: sum.splits)

lemma classify_item_spec:
  assumes "classify_item item = Inr c"
  shows "c = (if is_watched item then Watched (canonical_item item)
              else if is_watchlist item then Watchlist (canonical_item item)
              else Skipped)"
proof -
  from assms obtain d where d: "item = JDict d"
    by (cases item) (auto simp: classify_item_def bind_e_def)
  from assms d obtain fw p y where parts: "flagged_watched (JDict d) = Inr fw"
    "item_poster (JDict d) = Inr p" "item_year (JDict d) = Inr y"
    by (auto simp: classify_item_def bind_e_def split: sum.splits)
  note tw = flagged_watched_times_watched [OF parts(1)]
  note cp = item_poster_canonical [OF parts(2)]
  note cy = item_year_canonical [OF parts(3)]
  from assms have eq: "(if \<not> has_id_and_name (JDict d) then Inr Skipped
       else bind_e (py_gt_zero fw) (\<lambda>w.
              Inr (if w then Watched (canonical_item (JDict d))
                   else Watchlist (canonical_item (JDict d))))) = Inr c"
    unfolding d classify_item_dict parts cp cy by (auto simp: bind_e_def split: if_splits sum.splits)
  show ?thesis
  proof (cases "has_id_and_name item")
    case False
    with eq d show ?thesis by (auto simp: is_watched_def is_watchlist_def)
  next
    case True
    with eq d obtain b where b: "py_gt_zero fw = Inr b"
      and c: "c = (if b then Watched (canonical_item item) else Watchlist (canonical_item item))"
      by (cases "py_gt_zero fw") (auto simp: bind_e_def)
    from py_gt_zero_positive [OF b] tw d have "strictly_positive (times_watched item) = b" by simp
    with True c show ?thesis by (simp add: is_watched_def is_watchlist_def)
  qed
qed

lemma parse_items_spec:
  "parse_items items w0 l0 = Inr (w, l) \<Longrightarrow>
     w = w0 @ map canonical_item (filter is_watched items) \<and>
     l = l0 @ map canonical_item (filter is_watchlist items)"
proof (induction items arbitrary: w0 l0)
  case Nil
  then show ?case by simp
next
  case (Cons item rest)
  from Cons.prems obtain c where c: "classify_item item = Inr c"
    by (cases "classify_item item") auto
  note spec = classify_item_spec [OF c]
  have excl: "\<not> (is_watched item \<and> is_watchlist item)"
    by (simp add: is_watched_def is_watchlist_def)
  show ?case
  proof (cases c)
    case Skipped
    with spec have "\<not> is_watched item" "\<not> is_watchlist item" by (auto split: if_splits)
    moreover from Cons.prems c Skipped have "parse_items rest w0 l0 = Inr (w, l)" by simp
    ultimately show ?thesis using Cons.IH by simp
  next
    case (Watched m)
    with spec have "is_watched item" "m = canonical_item item" by (auto split: if_splits)
    moreover with excl have "\<not> is_watchlist item" by simp
    moreover from Cons.prems c Watched have "parse_items rest (w0 @ [m]) l0 = Inr (w, l)" by simp
    ultimately show ?thesis using Cons.IH [of "w0 @ [m]" l0] by simp
  next
    case (Watchlist m)
    with spec have "is_watchlist item" "m = canonical_item item" by (auto split: if_splits)
    moreover with excl have "\<not> is_watched item" by simp
    moreover from Cons.prems c Watchlist have "parse_items rest w0 (l0 @ [m]) = Inr (w, l)" by simp
    ultimately show ?thesis using Cons.IH [of w0 "l0 @ [m]"] by simp
  qed
qed

lemma parse_items_well_formed:
  assumes "\<forall>item \<in> set items. well_formed_item item"
  shows "parse_items items w0 l0 =
           Inr (w0 @ map canonical_item (filter is_watched items),
                l0 @ map canonical_item (filter is_watchlist items))"
proof -
  from assms have "\<forall>item \<in> set items. \<exists>c. classify_item item = Inr c"
    using classify_item_total by blast
  then have "\<exists>cs. map classify_item items = map Inr cs"
  proof (induction items)
    case Nil
    show ?case by simp
  next
    case (Cons i rest)
    then obtain c cs where "classify_item i = Inr c" "map classify_item rest = map Inr cs" by auto
    then have "map classify_item (i # rest) = map Inr (c # cs)" by simp
    then show ?case by blast
  qed
  then obtain cs where "map classify_item items = map Inr cs" by blast
  from parse_items_complete [OF this, of w0 l0]
  obtain w l where r: "parse_items items w0 l0 = Inr (w, l)" by blast
  from parse_items_spec [OF r] r show ?thesis by simp
qed

lemma classify_item_well_formed:
  assumes "well_formed_item item"
  shows "classify_item item =
           Inr (if is_watched item then Watched (canonical_item item)
                else if is_watchlist item then Watchlist (canonical_item item)
                else Skipped)"
proof -
  from classify_item_total [OF assms] obtain c where c: "classify_item item = Inr c" by blast
  from classify_item_spec [OF c] c show ?thesis by simp
qed

lemma partition_interleaves:
  "map canonical_item (filter has_id_and_name items)
     \<in> shuffles (map canonical_item (filter is_watched items))
                (map canonical_item (filter is_watchlist items))"
proof (induction items)
  case Nil
  show ?case by simp
next
  case (Cons i rest)
  then show ?case
    by (auto simp: is_watched_def is_watchlist_def
        intro: Cons_in_shuffles_leftI Cons_in_shuffles_rightI)
qed

lemma partition_sizes:
  "length (filter is_watched items) + length (filter is_watchlist items)
     = length (filter has_id_and_name items)"
  by (induction items) (auto simp: is_watched_def is_watchlist_def)

lemma canonical_examples:
  "canonical_item item_A = movie_A"
  "canonical_item item_B = movie_B"
  "canonical_item item_once = movie_once"
  "canonical_item item_no_counter = movie_no_counter"
  "canonical_item item_no_state = movie_no_state"
  by (simp_all add: item_A_def item_B_def item_once_def item_no_counter_def item_no_state_def
        movie_A_def movie_B_def movie_once_def movie_no_counter_def movie_no_state_def
        canonical_poster_def canonical_year_def field_or_def)

lemma is_watched_examples:
  "is_watched item_A" "is_watched item_once" "\<not> is_watched item_B" "\<not> is_watched item_C"
  "\<not> is_watched item_no_counter" "\<not> is_watched item_no_state"
  by (simp_all add: is_watched_def item_A_def item_B_def item_C_def item_once_def
        item_no_counter_def item_no_state_def field_or_def)

lemma is_watchlist_examples:
  "\<not> is_watchlist item_A" "\<not> is_watchlist item_once" "is_watchlist item_B" "\<not> is_watchlist item_C"
  "is_watchlist item_no_counter" "is_watchlist item_no_state"
  by (simp_all add: is_watchlist_def item_A_def item_B_def item_C_def item_once_def
        item_no_counter_def item_no_state_def field_or_def)

lemma has_id_and_name_examples:
  "has_id_and_name item_A" "has_id_and_name item_B" "\<not> has_id_and_name item_C"
  "has_id_and_name item_once" "has_id_and_name item_no_counter" "has_id_and_name item_no_state"
  by (simp_all add: item_A_def item_B_def item_C_def item_once_def
        item_no_counter_def item_no_state_def field_or_def)

lemma well_formed_examples:
  "well_formed_item item_A" "well_formed_item item_B" "well_formed_item item_C"
  "well_formed_item item_once" "well_formed_item item_no_counter" "well_formed_item item_no_state"
  by (simp_all add: item_A_def item_B_def item_C_def item_once_def
        item_no_counter_def item_no_state_def)

text \<open>
  Claim C3. Whenever normalization returns, the watched partition is the canonical
  items of exactly those records of the input, in input order, that have an identifier
  and a name and whose times-watched counter is strictly positive, and the watchlist
  those of the records with identifier and name whose counter is not; and it does return
  these two lists on every input whose records have the shape the remote store
  delivers. The counter is \<open>timesWatched\<close> inside \<open>state\<close> and 0 when \<open>state\<close> or
  \<open>timesWatched\<close> is absent; an integer counter \<open>n\<close> is strictly positive exactly when
  \<open>0 < n\<close>, so 0 gives the watchlist and 1 the watched partition. For one record of that
  shape with identifier and name, the loop body yields watched or watchlist accordingly.
\<close>

theorem watched_iff_times_watched_positive:
  "(\<forall>items w l lg'.
       result_items api_response = Inr items \<and>
       parse_library_data api_response lg = (Inr (w, l), lg') \<longrightarrow>
       w = map canonical_item (filter is_watched items) \<and>
       l = map canonical_item (filter is_watchlist items))
   \<and> (\<forall>items.
         result_items api_response = Inr items \<and> (\<forall>item \<in> set items. well_formed_item item) \<longrightarrow>
         fst (parse_library_data api_response lg)
           = Inr (map canonical_item (filter is_watched items),
                  map canonical_item (filter is_watchlist items)))
   \<and> (\<forall>item. is_watched item = (has_id_and_name item \<and> strictly_positive (times_watched item)))
   \<and> (\<forall>item. is_watchlist item = (has_id_and_name item \<and> \<not> strictly_positive (times_watched item)))
   \<and> (\<forall>d. map_of d ''state'' = None \<longrightarrow> times_watched (JDict d) = JInt 0)
   \<and> (\<forall>d s. map_of d ''state'' = Some (JDict s) \<longrightarrow>
         times_watched (JDict d) = (case map_of s ''timesWatched'' of None \<Rightarrow> JInt 0 | Some v \<Rightarrow> v))
   \<and> (\<forall>n. strictly_positive (JInt n) = (0 < n))
   \<and> (\<forall>item. well_formed_item item \<and> has_id_and_name item \<longrightarrow>
         classify_item item
           = Inr (if strictly_positive (times_watched item) then Watched (canonical_item item)
                  else Watchlist (canonical_item item)))"
proof (intro conjI allI impI)
  fix items w l lg'
  assume a: "result_items api_response = Inr items \<and>
       parse_library_data api_response lg = (Inr (w, l), lg')"
  then have "parse_items items [] [] = Inr (w, l)"
    by (auto simp: parse_library_data_Inr)
  from parse_items_spec [OF this]
  show "w = map canonical_item (filter is_watched items)"
    and "l = map canonical_item (filter is_watchlist items)" by simp_all
next
  fix items
  assume a: "result_items api_response = Inr items \<and> (\<forall>item \<in> set items. well_formed_item item)"
  then have "parse_items items [] [] =
           Inr ([] @ map canonical_item (filter is_watched items),
                [] @ map canonical_item (filter is_watchlist items))"
    by (intro parse_items_well_formed) simp
  with a show "fst (parse_library_data api_response lg)
           = Inr (map canonical_item (filter is_watched items),
                  map canonical_item (filter is_watchlist items))"
    by (simp add: parse_library_data_def)
next
  fix item
  show "is_watched item = (has_id_and_name item \<and> strictly_positive (times_watched item))"
    by (simp add: is_watched_def)
  show "is_watchlist item = (has_id_and_name item \<and> \<not> strictly_positive (times_watched item))"
    by (simp add: is_watchlist_def)
next
  fix d :: "(string \<times> json) list" assume "map_of d ''state'' = None"
  then show "times_watched (JDict d) = JInt 0" by simp
next
  fix d s :: "(string \<times> json) list" assume "map_of d ''state'' = Some (JDict s)"
  then show "times_watched (JDict d) = (case map_of s ''timesWatched'' of None \<Rightarrow> JInt 0 | Some v \<Rightarrow> v)"
    by (simp add: field_or_def)
next
  fix n show "strictly_positive (JInt n) = (0 < n)" by simp
next
  fix item assume a: "well_formed_item item \<and> has_id_and_name item"
  then have "classify_item item =
           Inr (if is_watched item then Watched (canonical_item item)
                else if is_watchlist item then Watchlist (canonical_item item)
                else Skipped)"
    by (intro classify_item_well_formed) simp
  with a show "classify_item item
           = Inr (if strictly_positive (times_watched item) then Watched (canonical_item item)
                  else Watchlist (canonical_item item))"
    by (simp add: is_watched_def is_watchlist_def)
qed

text \<open>
  Four records with counter 1, counter 0, no counter and no \<open>state\<close>: the first is the
  watched partition, the other three, in input order, the watchlist.
\<close>

theorem watched_iff_times_watched_positive_witness:
  "result_items threshold_response = Inr threshold_items
   \<and> well_formed_item item_once \<and> well_formed_item item_B
   \<and> well_formed_item item_no_counter \<and> well_formed_item item_no_state
   \<and> fst (parse_library_data threshold_response [])
        = Inr ([movie_once], [movie_B, movie_no_counter, movie_no_state])
   \<and> has_id_and_name item_once
   \<and> classify_item item_once = Inr (Watched movie_once)
   \<and> classify_item item_B = Inr (Watchlist movie_B)
   \<and> classify_item item_no_counter = Inr (Watchlist movie_no_counter)
   \<and> classify_item item_no_state = Inr (Watchlist movie_no_state)
   \<and> times_watched item_once = JInt 1 \<and> times_watched item_B = JInt 0
   \<and> times_watched item_no_counter = JInt 0 \<and> times_watched item_no_state = JInt 0"
proof -
  have r: "result_items threshold_response = Inr threshold_items"
    by (simp add: result_items_def bind_e_def threshold_response_def)
  have wf: "\<forall>item \<in> set threshold_items. well_formed_item item"
    by (simp add: threshold_items_def well_formed_examples)
  note t = watched_iff_times_watched_positive [of threshold_response "[]"]
  from t [THEN conjunct2, THEN conjunct1, rule_format, of threshold_items] r wf
  have "fst (parse_library_data threshold_response [])
           = Inr (map canonical_item (filter is_watched threshold_items),
                  map canonical_item (filter is_watchlist threshold_items))"
    by (simp only: simp_thms)
  then have run: "fst (parse_library_data threshold_response [])
        = Inr ([movie_once], [movie_B, movie_no_counter, movie_no_state])"
    by (simp add: threshold_items_def is_watched_examples is_watchlist_examples canonical_examples)
  note per_item = t [THEN conjunct2, THEN conjunct2, THEN conjunct2, THEN conjunct2,
      THEN conjunct2, THEN conjunct2, THEN conjunct2, rule_format]
  have tw: "times_watched item_once = JInt 1" "times_watched item_B = JInt 0"
    "times_watched item_no_counter = JInt 0" "times_watched item_no_state = JInt 0"
    by (simp_all add: item_once_def item_B_def item_no_counter_def item_no_state_def field_or_def)
  have c1: "classify_item item_once = Inr (Watched movie_once)"
    using per_item [of item_once] well_formed_examples has_id_and_name_examples
    by (simp add: tw canonical_examples)
  have c2: "classify_item item_B = Inr (Watchlist movie_B)"
    using per_item [of item_B] well_formed_examples has_id_and_name_examples
    by (simp add: tw canonical_examples)
  have c3: "classify_item item_no_counter = Inr (Watchlist movie_no_counter)"
    using per_item [of item_no_counter] well_formed_examples has_id_and_name_examples
    by (simp add: tw canonical_examples)
  have c4: "classify_item item_no_state = Inr (Watchlist movie_no_state)"
    using per_item [of item_no_state] well_formed_examples has_id_and_name_examples
    by (simp add: tw canonical_examples)
  from r run c1 c2 c3 c4 tw well_formed_examples has_id_and_name_examples
  show ?thesis by (intro conjI)
qed

text \<open>
  Claim C4. A record whose \<open>_id\<close> or \<open>name\<close> is missing or the empty string is never
  put into either partition, whatever its other fields are. It is skipped without an
  exception when it is of the shape the remote store delivers; an exception while it is
  processed can only come from reading \<open>state\<close>, the poster or the year. When the whole
  normalization succeeds, its output and its log line are those of the same list with
  the record taken out, so the record shows only in the lengths. Every movie in either
  partition has a truthy identifier and title.
\<close>

theorem dropped_records_never_appear:
  "(lacks_field d ''_id'' \<or> lacks_field d ''name'' \<longrightarrow>
      (\<forall>m. classify_item (JDict d) \<noteq> Inr (Watched m) \<and> classify_item (JDict d) \<noteq> Inr (Watchlist m))
    \<and> (well_formed_item (JDict d) \<longrightarrow> classify_item (JDict d) = Inr Skipped)
    \<and> (\<forall>e. classify_item (JDict d) = Inl e \<longrightarrow>
          flagged_watched (JDict d) = Inl e \<or> item_poster (JDict d) = Inl e \<or> item_year (JDict d) = Inl e)
    \<and> (\<forall>r r' xs ys lg w l lg'.
          result_items r = Inr (xs @ JDict d # ys) \<and> result_items r' = Inr (xs @ ys) \<and>
          parse_library_data r lg = (Inr (w, l), lg') \<longrightarrow>
          parse_library_data r' lg = (Inr (w, l), lg')))
   \<and> (\<forall>r lg w l lg'. parse_library_data r lg = (Inr (w, l), lg') \<longrightarrow>
         (\<forall>m \<in> set w \<union> set l. py_truthy (imdbID m) \<and> py_truthy (Title m)))"
proof (intro conjI impI allI ballI)
  assume lacks: "lacks_field d ''_id'' \<or> lacks_field d ''name''"
  note alt = classify_item_lacking [OF lacks]
  show "\<And>m. classify_item (JDict d) \<noteq> Inr (Watched m)" using alt by auto
  show "\<And>m. classify_item (JDict d) \<noteq> Inr (Watchlist m)" using alt by auto
  show "classify_item (JDict d) = Inr Skipped" if "well_formed_item (JDict d)"
    using alt classify_item_total [OF that] by auto
  show "flagged_watched (JDict d) = Inl e \<or> item_poster (JDict d) = Inl e \<or> item_year (JDict d) = Inl e"
    if "classify_item (JDict d) = Inl e" for e
    using alt that by auto
  show "parse_library_data r' lg = (Inr (w, l), lg')"
    if a: "result_items r = Inr (xs @ JDict d # ys) \<and> result_items r' = Inr (xs @ ys) \<and>
          parse_library_data r lg = (Inr (w, l), lg')" for r r' xs ys lg w l lg'
  proof -
    from a have p: "parse_items (xs @ JDict d # ys) [] [] = Inr (w, l)"
      and lg': "lg' = lg @ [Info_parsed (length w) (length l)]"
      by (auto simp: parse_library_data_Inr)
    from parse_items_sound [OF p] obtain cs where "map classify_item (xs @ JDict d # ys) = map Inr cs"
      by auto
    then have "classify_item (JDict d) \<in> set (map Inr cs)"
      by (metis in_set_conv_decomp list.set_map imageI)
    then obtain c where "classify_item (JDict d) = Inr c" by auto
    with alt have "classify_item (JDict d) = Inr Skipped" by auto
    from parse_items_skip [OF this, of xs ys "[]" "[]"] p
    have "parse_items (xs @ ys) [] [] = Inr (w, l)" by simp
    with a lg' show ?thesis by (auto simp: parse_library_data_Inr)
  qed
next
  fix r lg w l lg' m
  assume "parse_library_data r lg = (Inr (w, l), lg')" and m: "m \<in> set w \<union> set l"
  then obtain items where "parse_items items [] [] = Inr (w, l)"
    by (auto simp: parse_library_data_Inr)
  from parsed_movies_truthy [OF this m]
  show "py_truthy (imdbID m)" and "py_truthy (Title m)" by simp_all
qed

lemma classify_more_examples:
  "classify_item item_once = Inr (Watched movie_once)"
  "classify_item item_no_state = Inr (Watchlist movie_no_state)"
  by (simp_all add: classify_item_def flagged_watched_def item_poster_def item_year_def
        bind_e_def item_once_def item_no_state_def movie_once_def movie_no_state_def)

text \<open>
  The third record of the end-to-end scenario has an empty identifier: it is skipped,
  and the output is that of the first two records alone.
\<close>

theorem dropped_records_never_appear_witness:
  "(lacks_field dict_C ''_id'' \<or> lacks_field dict_C ''name'')
   \<and> well_formed_item (JDict dict_C)
   \<and> classify_item (JDict dict_C) = Inr Skipped
   \<and> parse_library_data e2e [] = (Inr ([movie_A], [movie_B]), [Info_parsed 1 1])
   \<and> parse_library_data (JDict [(''result'', JList [item_A, item_B])]) []
        = (Inr ([movie_A], [movie_B]), [Info_parsed 1 1])"
proof -
  have lacks: "lacks_field dict_C ''_id'' \<or> lacks_field dict_C ''name''"
    by (simp add: lacks_field_def dict_C_def)
  have wf: "well_formed_item (JDict dict_C)" by (simp add: dict_C_def)
  note inst = dropped_records_never_appear [of dict_C, THEN conjunct1, rule_format, OF lacks]
  from inst wf have skipped: "classify_item (JDict dict_C) = Inr Skipped" by blast
  have r: "result_items e2e = Inr ([item_A, item_B] @ JDict dict_C # [])"
    by (simp add: result_items_def bind_e_def e2e_def item_C_def dict_C_def)
  have r': "result_items (JDict [(''result'', JList [item_A, item_B])]) = Inr ([item_A, item_B] @ [])"
    by (simp add: result_items_def bind_e_def)
  from inst have "\<forall>r r' xs ys lg w l lg'.
          result_items r = Inr (xs @ JDict dict_C # ys) \<and> result_items r' = Inr (xs @ ys) \<and>
          parse_library_data r lg = (Inr (w, l), lg') \<longrightarrow>
          parse_library_data r' lg = (Inr (w, l), lg')" by blast
  from this [rule_format, of e2e "[item_A, item_B]" "[]" "JDict [(''result'', JList [item_A, item_B])]"
      "[]" "[movie_A]" "[movie_B]" "[Info_parsed 1 1]"] r r' e2e_run
  have "parse_library_data (JDict [(''result'', JList [item_A, item_B])]) []
        = (Inr ([movie_A], [movie_B]), [Info_parsed 1 1])" by blast
  with lacks wf skipped e2e_run show ?thesis by blast
qed

text \<open>
  Beyond the records of the delivered shape: a record without identifier whose \<open>state\<close>
  is \<open>null\<close> makes \<open>state.get\<close> raise before the skip is reached, and the whole
  normalization ends with that exception.
\<close>

lemma malformed_state_raises_before_skip:
  "classify_item (JDict [(''name'', JStr ''C''), (''state'', JNull)]) = Inl AttributeError"
  by (simp add: classify_item_def flagged_watched_def bind_e_def)

lemma malformed_state_ends_normalization:
  "fst (parse_library_data
          (JDict [(''result'', JList [item_A, JDict [(''name'', JStr ''C''), (''state'', JNull)]])]) [])
     = Inl AttributeError"
  by (simp add: parse_library_data_def result_items_def bind_e_def classify_examples
        malformed_state_raises_before_skip)

text \<open>
  Claim C5. Whenever normalization returns, each partition is the canonical items of
  the input records that belong to it, in input order; a record with identifier and
  name belongs to exactly one of the two and a record without to neither; the two
  lengths add up to the number of input records with identifier and name; and the
  canonical items of those records, in input order, are an interleaving of the two
  partitions. Normalization returns on every input whose records have the shape the
  remote store delivers; and such a record is skipped by the loop body exactly when it
  lacks the identifier or the name, and otherwise put into one of the two partitions.
\<close>

theorem partitions_cover_retained_in_order:
  "(parse_library_data api_response lg = (Inr (w, l), lg') \<longrightarrow>
      (\<exists>items. result_items api_response = Inr items
         \<and> w = map canonical_item (filter is_watched items)
         \<and> l = map canonical_item (filter is_watchlist items)
         \<and> (\<forall>item \<in> set items. has_id_and_name item \<longrightarrow> is_watched item \<noteq> is_watchlist item)
         \<and> (\<forall>item \<in> set items. \<not> has_id_and_name item \<longrightarrow>
               \<not> is_watched item \<and> \<not> is_watchlist item)
         \<and> length w + length l = length (filter has_id_and_name items)
         \<and> map canonical_item (filter has_id_and_name items) \<in> shuffles w l
         \<and> lg' = lg @ [Info_parsed (length w) (length l)]))
   \<and> (\<forall>items. result_items api_response = Inr items \<and> (\<forall>item \<in> set items. well_formed_item item) \<longrightarrow>
         (\<exists>w l. fst (parse_library_data api_response lg) = Inr (w, l)
            \<and> length w + length l = length (filter has_id_and_name items)))
   \<and> (\<forall>item. well_formed_item item \<longrightarrow>
         (\<exists>c. classify_item item = Inr c) \<and>
         (classify_item item = Inr Skipped) = (\<not> has_id_and_name item) \<and>
         (has_id_and_name item \<longrightarrow>
            classify_item item = Inr (Watched (canonical_item item)) \<or>
            classify_item item = Inr (Watchlist (canonical_item item))))"
proof (intro conjI impI allI)
  assume run: "parse_library_data api_response lg = (Inr (w, l), lg')"
  then obtain items where items: "result_items api_response = Inr items"
    and p: "parse_items items [] [] = Inr (w, l)"
    and lg: "lg' = lg @ [Info_parsed (length w) (length l)]"
    by (auto simp: parse_library_data_Inr)
  from parse_items_spec [OF p] have w: "w = map canonical_item (filter is_watched items)"
    and l: "l = map canonical_item (filter is_watchlist items)" by simp_all
  have one: "\<forall>item \<in> set items. has_id_and_name item \<longrightarrow> is_watched item \<noteq> is_watchlist item"
    by (simp add: is_watched_def is_watchlist_def)
  have none: "\<forall>item \<in> set items. \<not> has_id_and_name item \<longrightarrow>
               \<not> is_watched item \<and> \<not> is_watchlist item"
    by (simp add: is_watched_def is_watchlist_def)
  have len: "length w + length l = length (filter has_id_and_name items)"
    unfolding w l using partition_sizes [of items] by simp
  have shuf: "map canonical_item (filter has_id_and_name items) \<in> shuffles w l"
    unfolding w l by (rule partition_interleaves)
  from items w l one none len shuf lg
  show "\<exists>items. result_items api_response = Inr items
         \<and> w = map canonical_item (filter is_watched items)
         \<and> l = map canonical_item (filter is_watchlist items)
         \<and> (\<forall>item \<in> set items. has_id_and_name item \<longrightarrow> is_watched item \<noteq> is_watchlist item)
         \<and> (\<forall>item \<in> set items. \<not> has_id_and_name item \<longrightarrow>
               \<not> is_watched item \<and> \<not> is_watchlist item)
         \<and> length w + length l = length (filter has_id_and_name items)
         \<and> map canonical_item (filter has_id_and_name items) \<in> shuffles w l
         \<and> lg' = lg @ [Info_parsed (length w) (length l)]"
    by (intro exI [of _ items] conjI)
next
  fix items
  assume a: "result_items api_response = Inr items \<and> (\<forall>item \<in> set items. well_formed_item item)"
  then have "parse_items items [] [] =
           Inr ([] @ map canonical_item (filter is_watched items),
                [] @ map canonical_item (filter is_watchlist items))"
    by (intro parse_items_well_formed) simp
  with a have "fst (parse_library_data api_response lg)
           = Inr (map canonical_item (filter is_watched items),
                  map canonical_item (filter is_watchlist items))"
    by (simp add: parse_library_data_def)
  moreover have "length (map canonical_item (filter is_watched items))
      + length (map canonical_item (filter is_watchlist items))
      = length (filter has_id_and_name items)"
    using partition_sizes [of items] by simp
  ultimately show "\<exists>w l. fst (parse_library_data api_response lg) = Inr (w, l)
            \<and> length w + length l = length (filter has_id_and_name items)"
    by blast
next
  fix item assume wf: "well_formed_item item"
  note c = classify_item_well_formed [OF wf]
  from c show "\<exists>c. classify_item item = Inr c" by blast
  from c show "(classify_item item = Inr Skipped) = (\<not> has_id_and_name item)"
    by (auto simp: is_watched_def is_watchlist_def)
  show "classify_item item = Inr (Watched (canonical_item item)) \<or>
        classify_item item = Inr (Watchlist (canonical_item item))"
    if "has_id_and_name item"
    using c that by (auto simp: is_watched_def is_watchlist_def)
qed

text \<open>
  The end-to-end scenario: three records, two with identifier and name, one in each
  partition, the third skipped.
\<close>

theorem partitions_cover_retained_in_order_witness:
  "parse_library_data e2e [] = (Inr ([movie_A], [movie_B]), [Info_parsed 1 1])
   \<and> result_items e2e = Inr [item_A, item_B, item_C]
   \<and> [movie_A] = map canonical_item (filter is_watched [item_A, item_B, item_C])
   \<and> [movie_B] = map canonical_item (filter is_watchlist [item_A, item_B, item_C])
   \<and> length [movie_A] + length [movie_B] = length (filter has_id_and_name [item_A, item_B, item_C])
   \<and> map canonical_item (filter has_id_and_name [item_A, item_B, item_C])
        \<in> shuffles [movie_A] [movie_B]
   \<and> has_id_and_name item_A \<and> has_id_and_name item_B \<and> \<not> has_id_and_name item_C
   \<and> well_formed_item item_A \<and> well_formed_item item_B \<and> well_formed_item item_C
   \<and> classify_item item_C = Inr Skipped
   \<and> (\<exists>w l. fst (parse_library_data e2e []) = Inr (w, l)
         \<and> length w + length l = length (filter has_id_and_name [item_A, item_B, item_C]))"
proof -
  have items: "result_items e2e = Inr [item_A, item_B, item_C]"
    by (simp add: result_items_def bind_e_def e2e_def)
  have wf: "\<forall>item \<in> set [item_A, item_B, item_C]. well_formed_item item"
    by (simp add: well_formed_examples)
  note inst = partitions_cover_retained_in_order [of e2e "[]" "[movie_A]" "[movie_B]" "[Info_parsed 1 1]"]
  from inst [THEN conjunct1, rule_format, OF e2e_run]
  obtain items' where c: "result_items e2e = Inr items'"
    "[movie_A] = map canonical_item (filter is_watched items')"
    "[movie_B] = map canonical_item (filter is_watchlist items')"
    "length [movie_A] + length [movie_B] = length (filter has_id_and_name items')"
    "map canonical_item (filter has_id_and_name items') \<in> shuffles [movie_A] [movie_B]"
    by (elim exE conjE) (rule that)
  from c(1) items have eq: "items' = [item_A, item_B, item_C]" by simp
  from inst [THEN conjunct2, THEN conjunct1, rule_format, of "[item_A, item_B, item_C]"] items wf
  have 2: "\<exists>w l. fst (parse_library_data e2e []) = Inr (w, l)
         \<and> length w + length l = length (filter has_id_and_name [item_A, item_B, item_C])"
    by (simp only: simp_thms)
  from inst [THEN conjunct2, THEN conjunct2, rule_format, of item_C] well_formed_examples(3)
    has_id_and_name_examples(3)
  have 3: "classify_item item_C = Inr Skipped" by simp
  from e2e_run items c(2-5) [unfolded eq] has_id_and_name_examples(1-3) well_formed_examples(1-3) 3 2
  show ?thesis by (intro conjI)
qed

text \<open>
  Claim C8. Applying \<open>parse_library_data\<close> a second time to the same response, with the
  logger as the first application left it, gives the same two partitions (or the same
  exception): the result does not depend on the logger, the only state passed in.
\<close>

theorem normalization_repeatable:
  "fst (parse_library_data api_response (snd (parse_library_data api_response lg)))
     = fst (parse_library_data api_response lg)
   \<and> (\<forall>lg2. fst (parse_library_data api_response lg2) = fst (parse_library_data api_response lg))"
  by (auto simp: parse_library_data_def split: sum.splits)

section \<open>Restore: the batches and the tally\<close>

lemma tally_simps [simp]:
  "tally [] outs = 0"
  "tally (b # bs) (out # outs) = (if batch_succeeded out then length b else 0) + tally bs outs"
  by (simp_all add: tally_def)

lemma try_batch_list:
  "try_batch out (JList b) i tot st =
     (case bind_e (response_json out) (\<lambda>result. bind_e (accepted result) (\<lambda>ok. Inr (result, ok))) of
        Inl e \<Rightarrow> Inl e
      | Inr (result, ok) \<Rightarrow>
          Inr (if ok then st\<lparr>success_count := success_count st + length b,
                            logged := logged st @ [Info_restored (i + 1) (min (i + length b) tot) tot]\<rparr>
               else st\<lparr>logged := logged st @ [Warning_batch_may_have_failed (i div batch_size + 1) result]\<rparr>))"
  by (simp add: try_batch_def bind_e_def split: sum.splits)

lemma restore_batch_list:
  fixes st :: "'w restore_state"
  defines "b \<equiv> \<lambda>i xs. take batch_size (drop i xs)"
  shows "\<exists>st'. restore_batch post ak (JList xs) tot i st = Inr st'
     \<and> posted st' = posted st @ [request_of ak (b i xs)]
     \<and> remote st' = snd (post (remote st) (request_of ak (b i xs)))
     \<and> success_count st' = success_count st
          + (if batch_succeeded (fst (post (remote st) (request_of ak (b i xs)))) then length (b i xs) else 0)
     \<and> logged st' = logged st @ [batch_record tot i (b i xs) (fst (post (remote st) (request_of ak (b i xs))))]"
  unfolding restore_batch_def b_def
  by (simp add: bind_e_def Let_def try_batch_list request_of_def batch_succeeded_def batch_record_def
      split: sum.splits prod.splits)

lemma restore_batches_list:
  fixes st :: "'w restore_state"
  assumes "stop = length xs" and "step = batch_size"
  shows "\<exists>st'. restore_batches post ak (JList xs) tot (py_range i stop step) st = (None, st')
     \<and> posted st' = posted st @ map (request_of ak) (chunks batch_size (drop i xs))
     \<and> remote st' = remote_after post (remote st) (map (request_of ak) (chunks batch_size (drop i xs)))
     \<and> success_count st' = success_count st
          + tally (chunks batch_size (drop i xs))
                  (answers post (remote st) (map (request_of ak) (chunks batch_size (drop i xs))))
     \<and> logged st' = logged st
          @ batch_records tot i (chunks batch_size (drop i xs))
              (answers post (remote st) (map (request_of ak) (chunks batch_size (drop i xs))))"
  using assms
proof (induction i stop step arbitrary: st rule: py_range.induct)
  case (1 i stop step)
  show ?case
  proof (cases "stop \<le> i")
    case True
    then have "py_range i stop step = []" by (simp add: py_range.simps)
    moreover from True "1.prems" have "chunks batch_size (drop i xs) = []"
      by (simp add: chunks.simps)
    ultimately show ?thesis by simp
  next
    case False
    have pos: "step \<noteq> 0" using "1.prems" by (simp add: batch_size_def)
    from False pos have range: "py_range i stop step = i # py_range (i + step) stop step"
      by (subst py_range.simps) simp
    from False "1.prems" have ne: "drop i xs \<noteq> []" by simp
    have ch: "chunks batch_size (drop i xs)
                = take batch_size (drop i xs) # chunks batch_size (drop (i + step) xs)"
      using ne "1.prems" by (subst chunks.simps) (simp add: batch_size_def add.commute)
    from restore_batch_list [of post ak xs tot i st]
    obtain st1 where st1: "restore_batch post ak (JList xs) tot i st = Inr st1"
      "posted st1 = posted st @ [request_of ak (take batch_size (drop i xs))]"
      "remote st1 = snd (post (remote st) (request_of ak (take batch_size (drop i xs))))"
      "success_count st1 = success_count st
          + (if batch_succeeded (fst (post (remote st) (request_of ak (take batch_size (drop i xs)))))
             then length (take batch_size (drop i xs)) else 0)"
      "logged st1 = logged st @ [batch_record tot i (take batch_size (drop i xs))
          (fst (post (remote st) (request_of ak (take batch_size (drop i xs)))))]"
      by blast
    from "1.IH" [of st1] False pos "1.prems"
    obtain st' where st': "restore_batches post ak (JList xs) tot (py_range (i + step) stop step) st1 = (None, st')"
      "posted st' = posted st1 @ map (request_of ak) (chunks batch_size (drop (i + step) xs))"
      "remote st' = remote_after post (remote st1) (map (request_of ak) (chunks batch_size (drop (i + step) xs)))"
      "success_count st' = success_count st1
          + tally (chunks batch_size (drop (i + step) xs))
                  (answers post (remote st1) (map (request_of ak) (chunks batch_size (drop (i + step) xs))))"
      "logged st' = logged st1
          @ batch_records tot (i + step) (chunks batch_size (drop (i + step) xs))
              (answers post (remote st1) (map (request_of ak) (chunks batch_size (drop (i + step) xs))))"
      by blast
    have "restore_batches post ak (JList xs) tot (py_range i stop step) st = (None, st')"
      using range st1(1) st'(1) by simp
    moreover have "posted st' = posted st @ map (request_of ak) (chunks batch_size (drop i xs))"
      using st'(2) st1(2) ch by simp
    moreover have "remote st' = remote_after post (remote st) (map (request_of ak) (chunks batch_size (drop i xs)))"
      using st'(3) st1(3) ch by simp
    moreover have "success_count st' = success_count st
          + tally (chunks batch_size (drop i xs))
                  (answers post (remote st) (map (request_of ak) (chunks batch_size (drop i xs))))"
      using st'(4) st1(3,4) ch by simp
    moreover have "logged st' = logged st
          @ batch_records tot i (chunks batch_size (drop i xs))
              (answers post (remote st) (map (request_of ak) (chunks batch_size (drop i xs))))"
      using st'(5) st1(3,5) ch "1.prems"(2) by simp
    ultimately show ?thesis by blast
  qed
qed

lemma concat_chunks: "0 < n \<Longrightarrow> concat (chunks n xs) = xs"
proof (induction n xs rule: chunks.induct)
  case (1 n xs)
  then show ?case by (subst chunks.simps) simp
qed

lemma chunks_bounded: "b \<in> set (chunks n xs) \<Longrightarrow> length b \<le> n \<and> b \<noteq> []"
proof (induction n xs rule: chunks.induct)
  case (1 n xs)
  from "1.prems" have ne: "\<not> (n = 0 \<or> xs = [])"
    by (subst (asm) chunks.simps) (auto split: if_splits)
  with "1.prems" have "b = take n xs \<or> b \<in> set (chunks n (drop n xs))"
    by (subst (asm) chunks.simps) (auto split: if_splits)
  with "1.IH" ne show ?case by auto
qed

lemma length_chunks: "0 < n \<Longrightarrow> length (chunks n xs) = (length xs + n - 1) div n"
proof (induction n xs rule: chunks.induct)
  case (1 n xs)
  show ?case
  proof (cases "xs = []")
    case True
    with "1.prems" show ?thesis by (subst chunks.simps) simp
  next
    case False
    with "1.prems" have step: "length (chunks n xs) = Suc (length (chunks n (drop n xs)))"
      by (subst chunks.simps) simp
    from "1.IH" False "1.prems" have ih: "length (chunks n (drop n xs)) = (length xs - n + n - 1) div n"
      by simp
    show ?thesis
    proof (cases "n \<le> length xs")
      case True
      with "1.prems" have e: "length xs + n - 1 = (length xs - 1) + n" by simp
      have "(length xs - 1 + n) div n = Suc ((length xs - 1) div n)"
        using "1.prems" by simp
      then have "(length xs + n - 1) div n = Suc ((length xs - 1) div n)"
        by (simp only: e)
      moreover from True have "length xs - n + n - 1 = length xs - 1" by simp
      ultimately show ?thesis using step ih by (simp only:)
    next
      case False
      from \<open>xs \<noteq> []\<close> have "0 < length xs" by simp
      with False "1.prems" have "n * 1 \<le> length xs + n - 1" "length xs + n - 1 < n * Suc 1"
        by arith+
      then have "(length xs + n - 1) div n = 1" by (rule div_nat_eqI)
      moreover from False have "length xs - n + n - 1 = n - 1" by simp
      moreover from "1.prems" have "(n - 1) div n = 0" by simp
      ultimately show ?thesis using step ih by (simp only:)
    qed
  qed
qed

lemma nth_chunks: "k < length (chunks n xs) \<Longrightarrow> chunks n xs ! k = take n (drop (k * n) xs)"
proof (induction n xs arbitrary: k rule: chunks.induct)
  case (1 n xs)
  from "1.prems" have ne: "\<not> (n = 0 \<or> xs = [])"
    by (subst (asm) chunks.simps) (auto split: if_splits)
  then have ch: "chunks n xs = take n xs # chunks n (drop n xs)" by (subst chunks.simps) simp
  show ?case
  proof (cases k)
    case 0
    with ch show ?thesis by simp
  next
    case (Suc j)
    with "1.prems" ch have "j < length (chunks n (drop n xs))" by simp
    from "1.IH" [OF ne this] Suc ch show ?thesis by (simp add: add.commute)
  qed
qed

lemma restore_library_list:
  fixes post :: "'w http_post"
  shows "\<exists>st. restore_library post ak (JList xs) lg w
           = (Inr (tally (chunks batch_size xs)
                     (answers post w (map (request_of ak) (chunks batch_size xs)))), st)
     \<and> posted st = map (request_of ak) (chunks batch_size xs)
     \<and> remote st = remote_after post w (map (request_of ak) (chunks batch_size xs))
     \<and> logged st = lg @ Info_starting_restore (length xs)
          # batch_records (length xs) 0 (chunks batch_size xs)
              (answers post w (map (request_of ak) (chunks batch_size xs)))"
proof -
  let ?st0 = "\<lparr>success_count = 0, posted = [],
               logged = lg @ [Info_starting_restore (length xs)], remote = w\<rparr>"
  from restore_batches_list [of "length xs" xs batch_size post ak "length xs" 0 ?st0]
  obtain st' where "restore_batches post ak (JList xs) (length xs) (py_range 0 (length xs) batch_size) ?st0 = (None, st')"
    "posted st' = map (request_of ak) (chunks batch_size xs)"
    "remote st' = remote_after post w (map (request_of ak) (chunks batch_size xs))"
    "success_count st' = tally (chunks batch_size xs)
                  (answers post w (map (request_of ak) (chunks batch_size xs)))"
    "logged st' = lg @ Info_starting_restore (length xs)
          # batch_records (length xs) 0 (chunks batch_size xs)
              (answers post w (map (request_of ak) (chunks batch_size xs)))"
    by auto
  then show ?thesis by (simp add: restore_library_def)
qed

lemma ceiling_div_50: "int ((n + 49) div 50) = \<lceil>real n / 50\<rceil>"
  by linarith

lemma accepted_iff:
  "accepted result = Inr True \<longleftrightarrow>
     (\<exists>d. result = JDict d \<and>
        (map_of d ''result'' = Some (JStr ''ok'') \<or> (\<exists>v. map_of d ''success'' = Some v \<and> py_eq_True v)))"
proof (cases result)
  case (JDict d)
  show ?thesis
  proof (cases "map_of d ''result''")
    case None
    with JDict show ?thesis
      by (cases "map_of d ''success''") (auto simp: accepted_def bind_e_def)
  next
    case (Some r)
    with JDict show ?thesis
      by (cases r; cases "map_of d ''success''") (auto simp: accepted_def bind_e_def)
  qed
qed (auto simp: accepted_def bind_e_def)

lemma batch_succeeded_iff:
  "batch_succeeded out \<longleftrightarrow>
     (\<exists>status d. out = Post_returns status (Some (JDict d)) \<and> \<not> (400 \<le> status \<and> status < 600) \<and>
        (map_of d ''result'' = Some (JStr ''ok'') \<or> (\<exists>v. map_of d ''success'' = Some v \<and> py_eq_True v)))"
proof (cases out)
  case (Post_raises e)
  then show ?thesis by (simp add: batch_succeeded_def response_json_def)
next
  case (Post_returns status body)
  show ?thesis
  proof (cases body)
    case None
    with Post_returns show ?thesis by (simp add: batch_succeeded_def response_json_def)
  next
    case (Some result)
    with Post_returns show ?thesis
      using accepted_iff [of result] by (auto simp: batch_succeeded_def response_json_def)
  qed
qed

lemma batch_record_failed:
  assumes "\<not> batch_succeeded out"
  shows "(\<exists>e. batch_record n i b out = Error_failed_batch i e) \<or>
         (\<exists>r. batch_record n i b out = Warning_batch_may_have_failed (i div batch_size + 1) r)"
  using assms
  by (auto simp: batch_record_def batch_succeeded_def bind_e_def split: sum.splits)

lemma batch_record_succeeded:
  assumes "batch_succeeded out"
  shows "batch_record n i b out = Info_restored (i + 1) (min (i + length b) n) n"
  using assms
  by (auto simp: batch_record_def batch_succeeded_def bind_e_def split: sum.splits)

lemma importer_main_restores:
  fixes post :: "'w http_post"
  assumes "load_backup file = Inr (JList items)"
    and "auth_result (extract_stremio_auth_key env session True ''chromium''
            [Info_loading_backup, Info_loaded (length items), Info_logging_in]) = Inr auth_key"
  shows "exit_code (importer_main True file env session post w) = 0
     \<and> run_posted (importer_main True file env session post w)
          = map (request_of auth_key) (chunks batch_size items)
     \<and> last (run_log (importer_main True file env session post w))
          = Info_restore_completed
              (tally (chunks batch_size items)
                 (answers post w (map (request_of auth_key) (chunks batch_size items))))
              (length items)"
proof -
  let ?a = "extract_stremio_auth_key env session True ''chromium''
            [Info_loading_backup, Info_loaded (length items), Info_logging_in]"
  from restore_library_list [of post auth_key items "auth_log ?a @ [Info_authenticated]" w]
  obtain st where st: "restore_library post auth_key (JList items) (auth_log ?a @ [Info_authenticated]) w
           = (Inr (tally (chunks batch_size items)
                     (answers post w (map (request_of auth_key) (chunks batch_size items)))), st)"
    "posted st = map (request_of auth_key) (chunks batch_size items)"
    by blast
  show ?thesis
    using assms st by (simp add: importer_main_def bind_e_def Let_def)
qed

text \<open>
  Claim C1. For every token and list of items, \<open>restore_library\<close> returns the sum of the
  sizes of exactly those batches whose answer reaches the success branch, every batch
  is posted whatever happened to the ones before it, and a batch that fails leaves one
  error or warning record in the log. An answer reaches the success branch exactly when
  it is a response outside the status range 400 to 599 whose body is a mapping with
  \<open>result == "ok"\<close> or \<open>success == True\<close>. With three batches of which the second
  fails, the count is the size of the first plus the size of the third, three requests
  have been made, and the three sizes add up to the number of items. When the backup
  holds a list and the login succeeds, \<open>main\<close> ends with exit code 0 and its last log
  line reports that count out of the number of items, however many batches failed.
\<close>

theorem restore_tally_counts_accepted_batches:
  fixes post :: "'w http_post"
  shows
  "(let bs = chunks batch_size items;
        outs = answers post w (map (request_of auth_key) bs)
    in \<exists>st. restore_library post auth_key (JList items) lg w = (Inr (tally bs outs), st)
         \<and> posted st = map (request_of auth_key) bs
         \<and> logged st = lg @ Info_starting_restore (length items) # batch_records (length items) 0 bs outs
         \<and> (\<forall>b1 b2 b3 o1 o2 o3.
               bs = [b1, b2, b3] \<and> outs = [o1, o2, o3] \<and>
               batch_succeeded o1 \<and> \<not> batch_succeeded o2 \<and> batch_succeeded o3 \<longrightarrow>
               tally bs outs = length b1 + length b3 \<and> length (posted st) = 3 \<and>
               length b1 + length b2 + length b3 = length items))
   \<and> (\<forall>out. batch_succeeded out \<longleftrightarrow>
         (\<exists>status d. out = Post_returns status (Some (JDict d)) \<and>
            \<not> (400 \<le> status \<and> status < 600) \<and>
            (map_of d ''result'' = Some (JStr ''ok'') \<or>
             (\<exists>v. map_of d ''success'' = Some v \<and> py_eq_True v))))
   \<and> (\<forall>n i b out. \<not> batch_succeeded out \<longrightarrow>
         (\<exists>e. batch_record n i b out = Error_failed_batch i e) \<or>
         (\<exists>r. batch_record n i b out = Warning_batch_may_have_failed (i div batch_size + 1) r))
   \<and> (\<forall>file env session.
         load_backup file = Inr (JList items) \<and>
         auth_result (extract_stremio_auth_key env session True ''chromium''
            [Info_loading_backup, Info_loaded (length items), Info_logging_in]) = Inr auth_key \<longrightarrow>
         exit_code (importer_main True file env session post w) = 0 \<and>
         last (run_log (importer_main True file env session post w))
           = Info_restore_completed
               (tally (chunks batch_size items)
                  (answers post w (map (request_of auth_key) (chunks batch_size items))))
               (length items))"
proof (intro conjI)
  show "let bs = chunks batch_size items;
        outs = answers post w (map (request_of auth_key) bs)
    in \<exists>st. restore_library post auth_key (JList items) lg w = (Inr (tally bs outs), st)
         \<and> posted st = map (request_of auth_key) bs
         \<and> logged st = lg @ Info_starting_restore (length items) # batch_records (length items) 0 bs outs
         \<and> (\<forall>b1 b2 b3 o1 o2 o3.
               bs = [b1, b2, b3] \<and> outs = [o1, o2, o3] \<and>
               batch_succeeded o1 \<and> \<not> batch_succeeded o2 \<and> batch_succeeded o3 \<longrightarrow>
               tally bs outs = length b1 + length b3 \<and> length (posted st) = 3 \<and>
               length b1 + length b2 + length b3 = length items)"
  proof -
    from restore_library_list [of post auth_key items lg w]
    obtain st where st: "restore_library post auth_key (JList items) lg w
           = (Inr (tally (chunks batch_size items)
                     (answers post w (map (request_of auth_key) (chunks batch_size items)))), st)"
      "posted st = map (request_of auth_key) (chunks batch_size items)"
      "logged st = lg @ Info_starting_restore (length items)
          # batch_records (length items) 0 (chunks batch_size items)
              (answers post w (map (request_of auth_key) (chunks batch_size items)))"
      by blast
    have three: "length b1 + length b2 + length b3 = length items"
      if "chunks batch_size items = [b1, b2, b3]" for b1 b2 b3
    proof -
      have "concat (chunks batch_size items) = items"
        by (rule concat_chunks) (simp add: batch_size_def)
      with that have "b1 @ b2 @ b3 = items" by simp
      then show ?thesis by (metis length_append add.assoc)
    qed
    show ?thesis
      unfolding Let_def using st three by (intro exI [of _ st]) auto
  qed
next
  show "\<forall>out. batch_succeeded out \<longleftrightarrow>
         (\<exists>status d. out = Post_returns status (Some (JDict d)) \<and>
            \<not> (400 \<le> status \<and> status < 600) \<and>
            (map_of d ''result'' = Some (JStr ''ok'') \<or>
             (\<exists>v. map_of d ''success'' = Some v \<and> py_eq_True v)))"
    using batch_succeeded_iff by blast
next
  show "\<forall>n i b out. \<not> batch_succeeded out \<longrightarrow>
         (\<exists>e. batch_record n i b out = Error_failed_batch i e) \<or>
         (\<exists>r. batch_record n i b out = Warning_batch_may_have_failed (i div batch_size + 1) r)"
    using batch_record_failed by blast
next
  show "\<forall>file env session.
         load_backup file = Inr (JList items) \<and>
         auth_result (extract_stremio_auth_key env session True ''chromium''
            [Info_loading_backup, Info_loaded (length items), Info_logging_in]) = Inr auth_key \<longrightarrow>
         exit_code (importer_main True file env session post w) = 0 \<and>
         last (run_log (importer_main True file env session post w))
           = Info_restore_completed
               (tally (chunks batch_size items)
                  (answers post w (map (request_of auth_key) (chunks batch_size items))))
               (length items)"
    using importer_main_restores [of _ items _ _ auth_key post w] by blast
qed

lemma chunks_items_120:
  "chunks batch_size items_120 = [take 50 items_120, take 50 (drop 50 items_120), drop 100 items_120]"
  by code_simp

lemma answers_flaky:
  "answers flaky_post 0 (map (request_of tok) [b1, b2, b3]) =
     [Post_returns 200 (Some (JDict [(''result'', JStr ''ok'')])),
      Post_raises RequestException,
      Post_returns 200 (Some (JDict [(''result'', JStr ''ok'')]))]"
  by (simp add: flaky_post_def)

text \<open>
  120 items against a store that refuses the second request: 50 + 20 = 70 items are
  counted, all three requests are made, and the failure is logged with the starting
  index 50; \<open>main\<close> reports 70 of 120 and exits with 0.
\<close>

theorem restore_tally_counts_accepted_batches_witness:
  "(\<exists>st. restore_library flaky_post (JStr ''token'') (JList items_120) [] 0 = (Inr 70, st)
      \<and> length (posted st) = 3
      \<and> logged st ! 2 = Error_failed_batch 50 RequestException)
   \<and> exit_code (importer_main True (Inr (JList items_120)) (Some ''me@example.org'', Some ''pw'')
          visible_session flaky_post 0) = 0
   \<and> last (run_log (importer_main True (Inr (JList items_120)) (Some ''me@example.org'', Some ''pw'')
          visible_session flaky_post 0)) = Info_restore_completed 70 120"
proof -
  let ?ok = "Post_returns 200 (Some (JDict [(''result'', JStr ''ok'')]))"
  have ok: "batch_succeeded ?ok"
    by (simp add: batch_succeeded_def response_json_def accepted_def bind_e_def)
  have bad: "\<not> batch_succeeded (Post_raises RequestException)"
    by (simp add: batch_succeeded_def response_json_def)
  have len: "length items_120 = 120" by (simp add: items_120_def)
  note c1 = restore_tally_counts_accepted_batches [where items = items_120 and post = flaky_post and w = 0
      and auth_key = "JStr ''token''" and lg = "[]", unfolded Let_def, THEN conjunct1]
  from c1 obtain st where st:
    "restore_library flaky_post (JStr ''token'') (JList items_120) [] 0
       = (Inr (tally (chunks batch_size items_120)
            (answers flaky_post 0 (map (request_of (JStr ''token'')) (chunks batch_size items_120)))), st)"
    "posted st = map (request_of (JStr ''token'')) (chunks batch_size items_120)"
    "logged st = [] @ Info_starting_restore (length items_120)
       # batch_records (length items_120) 0 (chunks batch_size items_120)
           (answers flaky_post 0 (map (request_of (JStr ''token'')) (chunks batch_size items_120)))"
    "\<forall>b1 b2 b3 o1 o2 o3.
       chunks batch_size items_120 = [b1, b2, b3] \<and>
       answers flaky_post 0 (map (request_of (JStr ''token'')) (chunks batch_size items_120)) = [o1, o2, o3] \<and>
       batch_succeeded o1 \<and> \<not> batch_succeeded o2 \<and> batch_succeeded o3 \<longrightarrow>
       tally (chunks batch_size items_120)
            (answers flaky_post 0 (map (request_of (JStr ''token'')) (chunks batch_size items_120)))
         = length b1 + length b3 \<and> length (posted st) = 3 \<and>
       length b1 + length b2 + length b3 = length items_120"
    by (elim exE conjE) (rule that)
  from st(4) [rule_format, of "take 50 items_120" "take 50 (drop 50 items_120)" "drop 100 items_120"
      ?ok "Post_raises RequestException" ?ok] chunks_items_120 answers_flaky ok bad
  have "tally (chunks batch_size items_120)
            (answers flaky_post 0 (map (request_of (JStr ''token'')) (chunks batch_size items_120)))
         = length (take 50 items_120) + length (drop 100 items_120) \<and> length (posted st) = 3"
    by simp
  moreover have "logged st ! 2 = Error_failed_batch 50 RequestException"
    unfolding st(3) chunks_items_120 answers_flaky
    by (simp add: batch_record_def response_json_def bind_e_def batch_size_def)
  ultimately have run: "\<exists>st. restore_library flaky_post (JStr ''token'') (JList items_120) [] 0 = (Inr 70, st)
      \<and> length (posted st) = 3
      \<and> logged st ! 2 = Error_failed_batch 50 RequestException"
    using st(1) len by simp
  have load: "load_backup (Inr (JList items_120)) = Inr (JList items_120)"
    by (simp add: load_backup_def bind_e_def)
  have login: "auth_result (extract_stremio_auth_key (Some ''me@example.org'', Some ''pw'')
        visible_session True ''chromium''
        [Info_loading_backup, Info_loaded (length items_120), Info_logging_in]) = Inr (JStr ''secret'')"
    by (simp add: extract_stremio_auth_key_def extract_auth_key_def launch_browser_def
        visible_session_def extract_auth_key_from_storage_def storage_logged_in_def
        auth_key_of_profile_def bind_e_def Let_def)
  have count: "tally (chunks batch_size items_120)
      (answers flaky_post 0 (map (request_of (JStr ''secret'')) (chunks batch_size items_120))) = 70"
    unfolding chunks_items_120 answers_flaky by (simp add: ok bad len)
  note c4 = restore_tally_counts_accepted_batches [where items = items_120 and post = flaky_post
      and w = 0 and auth_key = "JStr ''secret''", THEN conjunct2, THEN conjunct2, THEN conjunct2,
      rule_format, of "Inr (JList items_120)" "(Some ''me@example.org'', Some ''pw'')" visible_session]
  from c4 load login count len
  have "exit_code (importer_main True (Inr (JList items_120)) (Some ''me@example.org'', Some ''pw'')
          visible_session flaky_post 0) = 0
      \<and> last (run_log (importer_main True (Inr (JList items_120)) (Some ''me@example.org'', Some ''pw'')
          visible_session flaky_post 0)) = Info_restore_completed 70 120"
    by simp
  with run show ?thesis by (intro conjI) simp_all
qed

text \<open>
  Claim C2. For every list of \<open>N\<close> items, \<open>restore_library\<close> returns, and the requests
  it has made carry batches \<open>bs\<close> such that there are \<open>\<lceil>N / 50\<rceil>\<close> of them, each has
  at most 50 items (and at least one), the \<open>k\<close>-th is the slice of 50 items starting at index
  \<open>50 * k\<close>, and their concatenation is the list of items.
\<close>

theorem restore_batches_cover_items:
  fixes post :: "'w http_post"
  shows
  "\<exists>st n bs. restore_library post auth_key (JList items) lg w = (Inr n, st)
      \<and> posted st = map (request_of auth_key) bs
      \<and> int (length bs) = \<lceil>real (length items) / 50\<rceil>
      \<and> (\<forall>b \<in> set bs. length b \<le> 50 \<and> b \<noteq> [])
      \<and> (\<forall>k < length bs. bs ! k = take 50 (drop (50 * k) items))
      \<and> concat bs = items"
proof -
  from restore_library_list [of post auth_key items lg w]
  obtain st n where st: "restore_library post auth_key (JList items) lg w = (Inr n, st)"
    "posted st = map (request_of auth_key) (chunks batch_size items)"
    by blast
  have "length (chunks batch_size items) = (length items + 49) div 50"
    using length_chunks [of batch_size items] by (simp add: batch_size_def)
  then have "int (length (chunks batch_size items)) = \<lceil>real (length items) / 50\<rceil>"
    using ceiling_div_50 [of "length items"] by simp
  moreover have "\<forall>b \<in> set (chunks batch_size items). length b \<le> 50 \<and> b \<noteq> []"
    using chunks_bounded [of _ batch_size items] by (simp add: batch_size_def)
  moreover have "\<forall>k < length (chunks batch_size items).
      chunks batch_size items ! k = take 50 (drop (50 * k) items)"
    using nth_chunks [of _ batch_size items] by (simp add: batch_size_def mult.commute)
  moreover have "concat (chunks batch_size items) = items"
    by (rule concat_chunks) (simp add: batch_size_def)
  ultimately show ?thesis using st by blast
qed

text \<open>The three batches of 120 items.\<close>

theorem restore_batches_cover_items_witness:
  "\<exists>st n. restore_library flaky_post (JStr ''token'') (JList items_120) [] 0 = (Inr n, st)
      \<and> map changes (posted st)
          = [JList (take 50 items_120), JList (take 50 (drop 50 items_120)), JList (drop 100 items_120)]"
proof -
  from restore_batches_cover_items [of flaky_post "JStr ''token''" items_120 "[]" 0]
  obtain st n bs where st:
    "restore_library flaky_post (JStr ''token'') (JList items_120) [] 0 = (Inr n, st)"
    "posted st = map (request_of (JStr ''token'')) bs"
    "int (length bs) = \<lceil>real (length items_120) / 50\<rceil>"
    "\<forall>k < length bs. bs ! k = take 50 (drop (50 * k) items_120)"
    by blast
  have "length items_120 = 120" by (simp add: items_120_def)
  with st(3) have "int (length bs) = 3" by simp
  then have len: "length bs = 3" by simp
  then obtain b1 b2 b3 where bs: "bs = [b1, b2, b3]"
    by (auto simp: numeral_3_eq_3 length_Suc_conv)
  from st(4) len have "bs ! 0 = take 50 (drop (50 * 0) items_120)"
    "bs ! 1 = take 50 (drop (50 * 1) items_120)" "bs ! 2 = take 50 (drop (50 * 2) items_120)"
    by simp_all
  with bs \<open>length items_120 = 120\<close>
  have "bs = [take 50 items_120, take 50 (drop 50 items_120), drop 100 items_120]"
    by simp
  with st(1,2) show ?thesis by (auto simp: request_of_def)
qed

section \<open>Token extraction\<close>

lemma find_profile_None:
  "find_profile storage_data = None \<longleftrightarrow>
     (\<forall>kv \<in> set storage_data. \<not> (is_dict (snd kv) \<and> py_in ''auth'' (snd kv) = Inr True))"
  by (induction storage_data rule: find_profile.induct) auto

lemma find_profile_Some:
  "find_profile storage_data = Some profile \<Longrightarrow>
     profile \<in> snd ` set storage_data \<and> is_dict profile \<and> py_in ''auth'' profile = Inr True"
  by (induction storage_data rule: find_profile.induct) (auto split: if_splits)

lemma find_profile_dict:
  assumes "find_profile storage_data = Some profile"
  shows "\<exists>p a. profile = JDict p \<and> map_of p ''auth'' = Some a \<and> p \<noteq> []"
proof -
  from find_profile_Some [OF assms] have d: "is_dict profile" and a: "py_in ''auth'' profile = Inr True"
    by simp_all
  from d obtain p where p: "profile = JDict p" by (cases profile) auto
  with a obtain v where "map_of p ''auth'' = Some v" by auto
  moreover from this have "p \<noteq> []" by auto
  ultimately show ?thesis using p by blast
qed

lemma auth_key_of_profile_found:
  assumes "map_of p ''auth'' = Some a"
  shows "auth_key_of_profile (Some (JDict p)) =
           bind_e (py_in ''key'' a) (\<lambda>has_key.
             if \<not> has_key then Inl (ValueError no_key_msg) else py_getitem a ''key'')"
proof -
  from assms have "p \<noteq> []" by auto
  with assms show ?thesis by (simp add: auth_key_of_profile_def bind_e_def)
qed

lemma messages_distinct:
  "no_profile_msg \<noteq> no_key_msg" "no_profile_msg \<noteq> no_auth_msg" "no_auth_msg \<noteq> no_key_msg"
  by (simp_all add: no_profile_msg_def no_key_msg_def no_auth_msg_def)

lemma fst_extract:
  "fst (extract_auth_key_from_storage storage_data lg) = auth_key_of_profile (find_profile storage_data)"
  by (simp add: extract_auth_key_from_storage_def Let_def split: sum.splits)

lemma no_auth_unreachable:
  "auth_key_of_profile (find_profile storage_data) \<noteq> Inl (ValueError no_auth_msg)"
proof (cases "find_profile storage_data")
  case None
  then show ?thesis by (simp add: auth_key_of_profile_def messages_distinct)
next
  case (Some profile)
  from find_profile_dict [OF Some] obtain p a where p: "profile = JDict p" "map_of p ''auth'' = Some a"
    by blast
  have "bind_e (py_in ''key'' a) (\<lambda>has_key.
             if \<not> has_key then Inl (ValueError no_key_msg) else py_getitem a ''key'')
          \<noteq> Inl (ValueError no_auth_msg)"
    using messages_distinct
    by (cases a) (auto simp: bind_e_def split: option.splits)
  with Some p show ?thesis by (simp add: auth_key_of_profile_found)
qed

lemma labelled_failures:
  assumes "auth_key_of_profile (find_profile storage_data) = Inl (ValueError msg)"
  shows "msg = no_profile_msg \<or> msg = no_key_msg"
proof (cases "find_profile storage_data")
  case None
  with assms show ?thesis by (simp add: auth_key_of_profile_def)
next
  case (Some profile)
  from find_profile_dict [OF Some] obtain p a where p: "profile = JDict p" "map_of p ''auth'' = Some a"
    by blast
  from assms Some p have "bind_e (py_in ''key'' a) (\<lambda>has_key.
             if \<not> has_key then Inl (ValueError no_key_msg) else py_getitem a ''key'')
          = Inl (ValueError msg)"
    by (simp add: auth_key_of_profile_found)
  then show ?thesis
    by (cases a) (auto simp: bind_e_def split: option.splits if_splits)
qed

text \<open>
  Claim C6, as amended. Token extraction has two labelled failures that a snapshot can
  produce. When no entry of the snapshot is a mapping containing \<open>auth\<close> (which is also
  the case of a profile record whose \<open>auth\<close> field is missing) it raises "Could not find
  profile data in localStorage". When the first such entry has a mapping as its \<open>auth\<close>
  value, it returns the value under \<open>key\<close>, and raises "No 'key' field found in auth data"
  when there is none. The three messages in the source are pairwise different.
\<close>

theorem two_reachable_labelled_failures:
  "((\<forall>kv \<in> set storage_data. \<not> (is_dict (snd kv) \<and> py_in ''auth'' (snd kv) = Inr True)) \<longrightarrow>
       fst (extract_auth_key_from_storage storage_data lg) = Inl (ValueError no_profile_msg))
   \<and> (\<forall>p a. find_profile storage_data = Some (JDict p) \<and> map_of p ''auth'' = Some (JDict a) \<longrightarrow>
         fst (extract_auth_key_from_storage storage_data lg)
           = (case map_of a ''key'' of None \<Rightarrow> Inl (ValueError no_key_msg) | Some k \<Rightarrow> Inr k))
   \<and> no_profile_msg \<noteq> no_key_msg \<and> no_profile_msg \<noteq> no_auth_msg \<and> no_auth_msg \<noteq> no_key_msg"
proof (intro conjI impI allI)
  assume "\<forall>kv \<in> set storage_data. \<not> (is_dict (snd kv) \<and> py_in ''auth'' (snd kv) = Inr True)"
  then have "find_profile storage_data = None" by (simp add: find_profile_None)
  then show "fst (extract_auth_key_from_storage storage_data lg) = Inl (ValueError no_profile_msg)"
    by (simp add: fst_extract auth_key_of_profile_def)
next
  fix p a
  assume "find_profile storage_data = Some (JDict p) \<and> map_of p ''auth'' = Some (JDict a)"
  then show "fst (extract_auth_key_from_storage storage_data lg)
           = (case map_of a ''key'' of None \<Rightarrow> Inl (ValueError no_key_msg) | Some k \<Rightarrow> Inr k)"
    by (simp add: fst_extract auth_key_of_profile_found bind_e_def split: option.splits)
qed (rule messages_distinct)+

text \<open>
  A snapshot whose profile record lacks \<open>auth\<close>, one whose \<open>auth\<close> lacks \<open>key\<close>, and one of
  a logged-in session.
\<close>

theorem two_reachable_labelled_failures_witness:
  "find_profile storage_profile_without_auth = None
   \<and> fst (extract_auth_key_from_storage storage_profile_without_auth []) = Inl (ValueError no_profile_msg)
   \<and> find_profile storage_auth_without_key = Some (JDict [(''auth'', JDict [(''user'', JStr ''u'')]), (''settings'', JDict [])])
   \<and> fst (extract_auth_key_from_storage storage_auth_without_key []) = Inl (ValueError no_key_msg)
   \<and> fst (extract_auth_key_from_storage storage_logged_in []) = Inr (JStr ''secret'')"
proof -
  have h1: "\<forall>kv \<in> set storage_profile_without_auth. \<not> (is_dict (snd kv) \<and> py_in ''auth'' (snd kv) = Inr True)"
    by (simp add: storage_profile_without_auth_def)
  have h2: "find_profile storage_auth_without_key
              = Some (JDict [(''auth'', JDict [(''user'', JStr ''u'')]), (''settings'', JDict [])])"
    by (simp add: storage_auth_without_key_def)
  have h3: "find_profile storage_logged_in
              = Some (JDict [(''auth'', JDict [(''key'', JStr ''secret''), (''user'', JStr ''u'')])])"
    by (simp add: storage_logged_in_def)
  from two_reachable_labelled_failures [of storage_profile_without_auth "[]", THEN conjunct1] h1
  have 1: "fst (extract_auth_key_from_storage storage_profile_without_auth []) = Inl (ValueError no_profile_msg)"
    by (rule mp)
  from two_reachable_labelled_failures [of storage_auth_without_key "[]", THEN conjunct2, THEN conjunct1,
      rule_format, of "[(''auth'', JDict [(''user'', JStr ''u'')]), (''settings'', JDict [])]"
         "[(''user'', JStr ''u'')]"] h2
  have 2: "fst (extract_auth_key_from_storage storage_auth_without_key []) = Inl (ValueError no_key_msg)"
    by simp
  from two_reachable_labelled_failures [of storage_logged_in "[]", THEN conjunct2, THEN conjunct1,
      rule_format, of "[(''auth'', JDict [(''key'', JStr ''secret''), (''user'', JStr ''u'')])]"
         "[(''key'', JStr ''secret''), (''user'', JStr ''u'')]"] h3
  have 3: "fst (extract_auth_key_from_storage storage_logged_in []) = Inr (JStr ''secret'')"
    by simp
  have "find_profile storage_profile_without_auth = None"
    by (simp add: storage_profile_without_auth_def)
  with 1 h2 2 3 show ?thesis by (intro conjI)
qed

text \<open>
  A snapshot whose profile record has no \<open>auth\<close> field fails exactly as a snapshot
  without any profile record does, and not with the message for a missing \<open>auth\<close> field:
  the two shape failures are not told apart.
\<close>

theorem three_distinct_failures_counterexample:
  "fst (extract_auth_key_from_storage storage_profile_without_auth [])
     = fst (extract_auth_key_from_storage storage_no_profile [])
   \<and> fst (extract_auth_key_from_storage storage_profile_without_auth [])
     \<noteq> Inl (ValueError no_auth_msg)"
  by (simp add: fst_extract storage_profile_without_auth_def storage_no_profile_def
      auth_key_of_profile_def messages_distinct)

text \<open>
  Claim C10. For every storage snapshot, token extraction never raises the error for a
  profile record lacking \<open>auth\<close>: the profile record that the loop finds is a mapping
  that contains \<open>auth\<close>, and of the function's own \<open>ValueError\<close>s only the one for a
  missing profile record and the one for a missing \<open>key\<close> can be raised. (An \<open>auth\<close>
  value that is not a mapping can still make the interpreter raise a \<open>TypeError\<close>.)
\<close>

theorem missing_auth_branch_unreachable:
  "fst (extract_auth_key_from_storage storage_data lg) \<noteq> Inl (ValueError no_auth_msg)
   \<and> (\<forall>profile. find_profile storage_data = Some profile \<longrightarrow>
         is_dict profile \<and> py_in ''auth'' profile = Inr True)
   \<and> (\<forall>msg. fst (extract_auth_key_from_storage storage_data lg) = Inl (ValueError msg) \<longrightarrow>
         msg = no_profile_msg \<or> msg = no_key_msg)"
proof (intro conjI allI impI)
  show "fst (extract_auth_key_from_storage storage_data lg) \<noteq> Inl (ValueError no_auth_msg)"
    by (simp add: fst_extract no_auth_unreachable)
next
  fix profile assume f: "find_profile storage_data = Some profile"
  from find_profile_Some [OF f] show "is_dict profile" and "py_in ''auth'' profile = Inr True"
    by simp_all
next
  fix msg assume "fst (extract_auth_key_from_storage storage_data lg) = Inl (ValueError msg)"
  then show "msg = no_profile_msg \<or> msg = no_key_msg"
    by (simp add: fst_extract labelled_failures)
qed

text \<open>
  The profile record found in a snapshot contains \<open>auth\<close>, and a snapshot without a
  profile record fails with the first of the two messages.
\<close>

theorem missing_auth_branch_unreachable_witness:
  "find_profile storage_auth_without_key
      = Some (JDict [(''auth'', JDict [(''user'', JStr ''u'')]), (''settings'', JDict [])])
   \<and> py_in ''auth'' (JDict [(''auth'', JDict [(''user'', JStr ''u'')]), (''settings'', JDict [])]) = Inr True
   \<and> fst (extract_auth_key_from_storage storage_no_profile []) = Inl (ValueError no_profile_msg)
   \<and> (no_profile_msg = no_profile_msg \<or> no_profile_msg = no_key_msg)"
proof -
  have h: "find_profile storage_auth_without_key
      = Some (JDict [(''auth'', JDict [(''user'', JStr ''u'')]), (''settings'', JDict [])])"
    by (simp add: storage_auth_without_key_def)
  have e: "fst (extract_auth_key_from_storage storage_no_profile []) = Inl (ValueError no_profile_msg)"
    by (simp add: fst_extract storage_no_profile_def auth_key_of_profile_def)
  from missing_auth_branch_unreachable [of storage_auth_without_key "[]", THEN conjunct2, THEN conjunct1,
      rule_format, OF h]
  have 1: "py_in ''auth'' (JDict [(''auth'', JDict [(''user'', JStr ''u'')]), (''settings'', JDict [])]) = Inr True"
    by (rule conjunct2)
  from missing_auth_branch_unreachable [of storage_no_profile "[]", THEN conjunct2, THEN conjunct2,
      rule_format, OF e]
  have 2: "no_profile_msg = no_profile_msg \<or> no_profile_msg = no_key_msg" .
  from h 1 e 2 show ?thesis by (intro conjI)
qed

text \<open>
  Outside the labelled failures: a profile record whose \<open>auth\<close> is \<open>null\<close> makes
  \<open>'key' not in auth_data\<close> raise a \<open>TypeError\<close>.
\<close>

lemma null_auth_raises_type_error:
  "fst (extract_auth_key_from_storage [(''profile'', JDict [(''auth'', JNull)])] []) = Inl TypeError"
  by (simp add: fst_extract auth_key_of_profile_def bind_e_def)

section \<open>Loading the backup and launching the browser\<close>

lemma load_backup_Inr:
  "load_backup (Inr data) =
     (if is_dict data \<and> py_in ''result'' data = Inr True
      then (case py_getitem data ''result'' of Inl e \<Rightarrow> Inl (Failed_to_load e) | Inr v \<Rightarrow> Inr v)
      else if is_list data then Inr data
      else Inl (Failed_to_load (ValueError invalid_format_msg)))"
  by (simp add: load_backup_def bind_e_def)

lemma load_backup_Inl: "load_backup (Inl e) = Inl (Failed_to_load e)"
  by (simp add: load_backup_def bind_e_def)

lemma importer_main_load_failure:
  assumes "load_backup file = Inl e"
  shows "importer_main file_exists file env session post w =
           \<lparr>exit_code = 1, run_browser = [], run_posted = [],
            run_log = (if file_exists then [Info_loading_backup, Error_restore_failed e]
                       else [Error_backup_not_found]),
            run_remote = w\<rparr>"
  using assms by (simp add: importer_main_def bind_e_def)

text \<open>
  Claim C7. \<open>load_backup\<close> returns the value under \<open>result\<close> when the document is a
  mapping with that key, and the document itself when it is a list. For a document that
  is neither, and for a file that cannot be read or decoded, it raises an error; and
  whenever it raises, \<open>main\<close> ends with exit code 1 without having launched the browser
  or posted a request, the remote store unchanged.
\<close>

theorem load_backup_accepts_two_shapes:
  "(\<forall>d v. file = Inr (JDict d) \<and> map_of d ''result'' = Some v \<longrightarrow> load_backup file = Inr v)
   \<and> (\<forall>xs. file = Inr (JList xs) \<longrightarrow> load_backup file = Inr (JList xs))
   \<and> (\<forall>data. file = Inr data \<and> \<not> (\<exists>d v. data = JDict d \<and> map_of d ''result'' = Some v)
               \<and> \<not> (\<exists>xs. data = JList xs) \<longrightarrow>
         load_backup file = Inl (Failed_to_load (ValueError invalid_format_msg)))
   \<and> (\<forall>e. file = Inl e \<longrightarrow> load_backup file = Inl (Failed_to_load e))
   \<and> (\<forall>e. load_backup file = Inl e \<longrightarrow>
         exit_code (importer_main file_exists file env session post w) = 1
         \<and> run_browser (importer_main file_exists file env session post w) = []
         \<and> run_posted (importer_main file_exists file env session post w) = []
         \<and> run_remote (importer_main file_exists file env session post w) = w)"
proof (intro conjI allI impI)
  fix d v assume "file = Inr (JDict d) \<and> map_of d ''result'' = Some v"
  then show "load_backup file = Inr v" by (simp add: load_backup_Inr)
next
  fix xs assume "file = Inr (JList xs)"
  then show "load_backup file = Inr (JList xs)" by (simp add: load_backup_Inr)
next
  fix data
  assume a: "file = Inr data \<and> \<not> (\<exists>d v. data = JDict d \<and> map_of d ''result'' = Some v)
               \<and> \<not> (\<exists>xs. data = JList xs)"
  then have c1: "(is_dict data \<and> py_in ''result'' data = Inr True) = False"
    by (cases data) auto
  from a have c2: "is_list data = False" by (cases data) auto
  from a show "load_backup file = Inl (Failed_to_load (ValueError invalid_format_msg))"
    by (simp add: load_backup_Inr c1 c2)
next
  fix e assume "file = Inl e"
  then show "load_backup file = Inl (Failed_to_load e)" by (simp add: load_backup_Inl)
next
  fix e assume f: "load_backup file = Inl e"
  show "exit_code (importer_main file_exists file env session post w) = 1"
    and "run_browser (importer_main file_exists file env session post w) = []"
    and "run_posted (importer_main file_exists file env session post w) = []"
    and "run_remote (importer_main file_exists file env session post w) = w"
    by (simp_all add: importer_main_load_failure [OF f])
qed

text \<open>
  Both shapes, a document that is neither, and an undecodable file, for which \<open>main\<close>
  makes no request.
\<close>

theorem load_backup_accepts_two_shapes_witness:
  "load_backup (Inr backup_dict) = Inr backup_list
   \<and> load_backup (Inr backup_list) = Inr backup_list
   \<and> load_backup (Inr (JStr ''not a backup'')) = Inl (Failed_to_load (ValueError invalid_format_msg))
   \<and> load_backup (Inl JSONDecodeError) = Inl (Failed_to_load JSONDecodeError)
   \<and> run_browser (importer_main True (Inl JSONDecodeError) (Some ''me@example.org'', Some ''pw'')
        visible_session accept_all 0) = []
   \<and> run_posted (importer_main True (Inl JSONDecodeError) (Some ''me@example.org'', Some ''pw'')
        visible_session accept_all 0) = []
   \<and> exit_code (importer_main True (Inl JSONDecodeError) (Some ''me@example.org'', Some ''pw'')
        visible_session accept_all 0) = 1"
proof -
  note t1 = load_backup_accepts_two_shapes [of "Inr backup_dict", THEN conjunct1, rule_format,
      of "[(''result'', JList [JDict [(''_id'', JStr ''tt001'')]])]" backup_list]
  have 1: "load_backup (Inr backup_dict) = Inr backup_list"
    by (rule t1) (simp add: backup_dict_def backup_list_def)
  note t2 = load_backup_accepts_two_shapes [of "Inr backup_list", THEN conjunct2, THEN conjunct1,
      rule_format, of "[JDict [(''_id'', JStr ''tt001'')]]"]
  have 2: "load_backup (Inr backup_list) = Inr backup_list"
    using t2 by (simp add: backup_list_def)
  note t3 = load_backup_accepts_two_shapes [of "Inr (JStr ''not a backup'')", THEN conjunct2,
      THEN conjunct2, THEN conjunct1, rule_format, of "JStr ''not a backup''"]
  have 3: "load_backup (Inr (JStr ''not a backup'')) = Inl (Failed_to_load (ValueError invalid_format_msg))"
    by (rule t3) simp
  note t4 = load_backup_accepts_two_shapes [of "Inl JSONDecodeError", THEN conjunct2,
      THEN conjunct2, THEN conjunct2, THEN conjunct1, rule_format, of JSONDecodeError]
  have 4: "load_backup (Inl JSONDecodeError) = Inl (Failed_to_load JSONDecodeError)"
    by (rule t4) simp
  note t5 = load_backup_accepts_two_shapes [of "Inl JSONDecodeError" True
      "(Some ''me@example.org'', Some ''pw'')" visible_session accept_all 0,
      THEN conjunct2, THEN conjunct2, THEN conjunct2, THEN conjunct2, rule_format, OF 4]
  from 1 2 3 4 t5 show ?thesis by (intro conjI) simp_all
qed

text \<open>
  Claim C9. For every value of \<open>headless\<close>, the browser is launched exactly as for
  \<open>headless=True\<close>, with the argument \<open>headless=True\<close>; \<open>extract_auth_key\<close> and
  \<open>extract_stremio_auth_key\<close> give the same result, the same browser events and the same
  log for \<open>headless\<close> and for its negation, and every launch they make has
  \<open>headless=True\<close>.
\<close>

theorem headless_parameter_ignored:
  "launch_browser btype headless = launch_browser btype True
   \<and> headless_arg (launch_browser btype headless) = True
   \<and> extract_auth_key session self headless lg = extract_auth_key session self (\<not> headless) lg
   \<and> extract_stremio_auth_key env session headless btype lg
       = extract_stremio_auth_key env session (\<not> headless) btype lg
   \<and> (\<forall>call. Launched call \<in> set (browser_events (extract_auth_key session self headless lg)) \<longrightarrow>
         headless_arg call = True)
   \<and> (\<forall>call. Launched call \<in> set (browser_events (extract_stremio_auth_key env session headless btype lg)) \<longrightarrow>
         headless_arg call = True)"
proof -
  have l: "launch_browser b h = launch_browser b h'" for b h h'
    by (simp add: launch_browser_def)
  have a: "extract_auth_key session s h lg = extract_auth_key session s h' lg" for s h h'
    by (simp add: extract_auth_key_def l [of _ h h'])
  have ev: "headless_arg call = True"
    if "Launched call \<in> set (browser_events (extract_auth_key session s h lg))" for s h call
    using that
    by (auto simp: extract_auth_key_def Let_def launch_browser_def
        split: session_outcome.splits sum.splits prod.splits)
  have s: "extract_stremio_auth_key env session h btype lg
       = extract_stremio_auth_key env session h' btype lg" for h h'
    by (auto simp: extract_stremio_auth_key_def a [of _ h h'] split: option.splits prod.splits)
  have sev: "headless_arg call = True"
    if "Launched call \<in> set (browser_events (extract_stremio_auth_key env session h btype lg))" for h call
    using that ev
    by (auto simp: extract_stremio_auth_key_def split: option.splits prod.splits if_splits)
  show ?thesis
    using l [of btype headless True] a [of self headless "\<not> headless"] s [of headless "\<not> headless"]
      ev sev
    by (simp add: launch_browser_def)
qed

text \<open>Asked for a visible Firefox, the extractor launches a headless one.\<close>

theorem headless_parameter_ignored_witness:
  "browser_events (extract_stremio_auth_key (Some ''me@example.org'', Some ''pw'') visible_session
        False ''firefox'' [])
     = [Launched \<lparr>launcher = Firefox, headless_arg = True\<rparr>, Closed]
   \<and> auth_result (extract_stremio_auth_key (Some ''me@example.org'', Some ''pw'') visible_session
        False ''firefox'' []) = Inr (JStr ''secret'')
   \<and> headless_arg \<lparr>launcher = Firefox, headless_arg = True\<rparr> = True"
proof -
  have run: "extract_stremio_auth_key (Some ''me@example.org'', Some ''pw'') visible_session
        False ''firefox'' []
      = \<lparr>auth_result = Inr (JStr ''secret''),
         browser_events = [Launched \<lparr>launcher = Firefox, headless_arg = True\<rparr>, Closed],
         auth_log = [Info_extracting, Info_found_profile, Info_extracted]\<rparr>"
    by (simp add: extract_stremio_auth_key_def extract_auth_key_def launch_browser_def
        visible_session_def extract_auth_key_from_storage_def storage_logged_in_def
        auth_key_of_profile_def bind_e_def Let_def)
  note t = headless_parameter_ignored [where btype = "''firefox''" and headless = False
      and session = visible_session and lg = "[]"
      and env = "(Some ''me@example.org'', Some ''pw'')", THEN conjunct2, THEN conjunct2, THEN conjunct2,
      THEN conjunct2, THEN conjunct2, rule_format, of "\<lparr>launcher = Firefox, headless_arg = True\<rparr>"]
  have "headless_arg \<lparr>launcher = Firefox, headless_arg = True\<rparr> = True"
    by (rule t) (simp add: run)
  with run show ?thesis by simp
qed

end
